theory Spec2Isabelle
  imports Main "HOL-Library.Sublist"
begin

section \<open>JavaScript values, errors and promises\<close>

text \<open>
  The Reddit service (\<^verbatim>\<open>server/services/reddit.ts\<close>) is asynchronous TypeScript. A
  promise either resolves with a value, rejects with an error, or never settles; the three
  outcomes are the constructors of \<open>settled\<close>. An \<^verbatim>\<open>async\<close> function is a function from
  the trace of effects so far to its outcome and the extended trace.

  Strings are byte sequences (UTF-8). A number is only ever interpolated into a string by
  this service, so a number is represented by the text JavaScript renders it to.
\<close>

datatype js_number = JsNumber (number_text: string)

datatype jsval =
    JUndefined
  | JNull
  | JBool bool
  | JNum js_number
  | JStr string
  | JArr "jsval list"
  | JObj "(string \<times> jsval) list"

datatype js_error = JsError (error_name: string) (message: string)

definition new_Error :: "string \<Rightarrow> js_error" where
  "new_Error m = JsError ''Error'' m"

text \<open>
  Faults raised by the engine itself rather than by a \<^verbatim>\<open>throw\<close> of the service. The text
  of their messages is chosen by the engine and is a parameter of the model.
\<close>

datatype engine_fault =
    ReadOfNullish jsval string
  | NotAFunction jsval string
  | NoPrimitive jsval

definition TypeError :: "(engine_fault \<Rightarrow> string) \<Rightarrow> engine_fault \<Rightarrow> js_error" where
  "TypeError em f = JsError ''TypeError'' (em f)"

datatype 'a settled = Resolved 'a | Rejected js_error | Pending

text \<open>
  \<^verbatim>\<open>v.k\<close> for the property names the service reads (\<^verbatim>\<open>access_token\<close>, \<^verbatim>\<open>data\<close>,
  \<^verbatim>\<open>children\<close>), none of which is defined on a prototype. An object is the list of its
  members in the order of the JSON text; of two members with one key, \<^verbatim>\<open>JSON.parse\<close>
  keeps the later.
\<close>

fun get_prop :: "(engine_fault \<Rightarrow> string) \<Rightarrow> jsval \<Rightarrow> string \<Rightarrow> js_error + jsval" where
  "get_prop em JUndefined k = Inl (TypeError em (ReadOfNullish JUndefined k))"
| "get_prop em JNull k = Inl (TypeError em (ReadOfNullish JNull k))"
| "get_prop em (JObj kvs) k = Inr (case map_of (rev kvs) k of None \<Rightarrow> JUndefined | Some v \<Rightarrow> v)"
| "get_prop em v k = Inr JUndefined"

text \<open>\<^verbatim>\<open>children.map((child) => child.data)\<close>: the callback, element by element.\<close>

fun map_child_data :: "(engine_fault \<Rightarrow> string) \<Rightarrow> jsval list \<Rightarrow> js_error + jsval list" where
  "map_child_data em [] = Inr []"
| "map_child_data em (child # rest) =
     (case get_prop em child ''data'' of
        Inl e \<Rightarrow> Inl e
      | Inr d \<Rightarrow> (case map_child_data em rest of Inl e \<Rightarrow> Inl e | Inr ds \<Rightarrow> Inr (d # ds)))"

text \<open>
  The method call \<^verbatim>\<open>children.map(...)\<close>: only an array has a callable \<^verbatim>\<open>map\<close>; a value
  parsed from JSON never holds a function.
\<close>

fun call_map :: "(engine_fault \<Rightarrow> string) \<Rightarrow> jsval \<Rightarrow> js_error + jsval list" where
  "call_map em JUndefined = Inl (TypeError em (ReadOfNullish JUndefined ''map''))"
| "call_map em JNull = Inl (TypeError em (ReadOfNullish JNull ''map''))"
| "call_map em (JArr xs) = map_child_data em xs"
| "call_map em v = Inl (TypeError em (NotAFunction v ''map''))"

text \<open>
  Interpolation \<^verbatim>\<open>${v}\<close> into a template literal. An array is joined with commas, its
  \<^verbatim>\<open>null\<close> and \<^verbatim>\<open>undefined\<close> elements rendered empty; an object renders as
  \<^verbatim>\<open>[object Object]\<close> unless a member named \<^verbatim>\<open>toString\<close> shadows the inherited method,
  in which case no primitive can be obtained and the engine throws.
\<close>

fun join_comma :: "(js_error + string) list \<Rightarrow> js_error + string" where
  "join_comma [] = Inr []"
| "join_comma [r] = r"
| "join_comma (r # rs) =
     (case r of
        Inl e \<Rightarrow> Inl e
      | Inr s \<Rightarrow> (case join_comma rs of Inl e \<Rightarrow> Inl e | Inr t \<Rightarrow> Inr (s @ '','' @ t)))"

fun to_template :: "(engine_fault \<Rightarrow> string) \<Rightarrow> jsval \<Rightarrow> js_error + string" where
  "to_template em JUndefined = Inr ''undefined''"
| "to_template em JNull = Inr ''null''"
| "to_template em (JBool b) = Inr (if b then ''true'' else ''false'')"
| "to_template em (JNum n) = Inr (number_text n)"
| "to_template em (JStr s) = Inr s"
| "to_template em (JArr xs) =
     join_comma (map (\<lambda>x. if x = JUndefined \<or> x = JNull then Inr [] else to_template em x) xs)"
| "to_template em (JObj kvs) =
     (if ''toString'' \<in> fst ` set kvs then Inl (TypeError em (NoPrimitive (JObj kvs)))
      else Inr ''[object Object]'')"

text \<open>\<^verbatim>\<open>String.prototype.includes\<close>: does \<open>sub\<close> occur in \<open>s\<close> as a contiguous run?\<close>

fun str_includes :: "string \<Rightarrow> string \<Rightarrow> bool" where
  "str_includes [] sub = (sub = [])"
| "str_includes (c # cs) sub = (prefix sub (c # cs) \<or> str_includes cs sub)"

text \<open>The decimal rendering of a non-negative integer (an HTTP status).\<close>

fun show_nat :: "nat \<Rightarrow> string" where
  "show_nat n =
     (if n < 10 then [char_of (48 + n)]
      else show_nat (n div 10) @ [char_of (48 + n mod 10)])"

declare show_nat.simps [simp del]

text \<open>\<^verbatim>\<open>Buffer.from(s).toString("base64")\<close>: RFC 4648 with padding.\<close>

definition b64_digit :: "nat \<Rightarrow> char" where
  "b64_digit n =
     ''ABCDEFGHIJKLMNOPQRSTUVWXYZabcdefghijklmnopqrstuvwxyz0123456789+/'' ! (n mod 64)"

fun base64 :: "string \<Rightarrow> string" where
  "base64 [] = []"
| "base64 [a] =
     (let x = (of_char a :: nat)
      in [b64_digit (x div 4), b64_digit (x mod 4 * 16), CHR ''='', CHR ''=''])"
| "base64 [a, b] =
     (let x = (of_char a :: nat); y = (of_char b :: nat)
      in [b64_digit (x div 4), b64_digit (x mod 4 * 16 + y div 16),
          b64_digit (y mod 16 * 4), CHR ''=''])"
| "base64 (a # b # c # rest) =
     (let x = (of_char a :: nat); y = (of_char b :: nat); z = (of_char c :: nat)
      in [b64_digit (x div 4), b64_digit (x mod 4 * 16 + y div 16),
          b64_digit (y mod 16 * 4 + z div 64), b64_digit (z mod 64)] @ base64 rest)"

section \<open>Requests, responses and the runtime\<close>

record request =
  req_method :: string
  url :: string
  headers :: "(string \<times> string) list"
  body :: "string option"

text \<open>
  A \<^verbatim>\<open>Response\<close>: its status, and what \<^verbatim>\<open>response.text()\<close> and \<^verbatim>\<open>response.json()\<close>
  settle to (a body that is not JSON makes \<^verbatim>\<open>json()\<close> reject).
\<close>

record response =
  status :: nat
  text_result :: "string settled"
  json_result :: "jsval settled"

definition ok :: "response \<Rightarrow> bool" where
  "ok r = (200 \<le> status r \<and> status r \<le> 299)"

datatype event =
    Call string
  | Fetch request
  | ConsoleError string js_error

text \<open>
  What the service reads from its surroundings: the two environment variables, the message
  texts of the engine, and the network, which answers a request in the light of everything
  that happened before it.
\<close>

record runtime =
  REDDIT_CLIENT_ID :: "string option"
  REDDIT_CLIENT_SECRET :: "string option"
  engine_message :: "engine_fault \<Rightarrow> string"
  network :: "event list \<Rightarrow> request \<Rightarrow> response settled"

type_synonym 'a async = "event list \<Rightarrow> 'a settled \<times> event list"

definition fetch :: "runtime \<Rightarrow> request \<Rightarrow> response async" where
  "fetch rt req tr = (network rt tr req, tr @ [Fetch req])"

text \<open>\<^verbatim>\<open>!v\<close> for an environment variable: unset or the empty string.\<close>

definition falsy :: "string option \<Rightarrow> bool" where
  "falsy v = (case v of None \<Rightarrow> True | Some s \<Rightarrow> s = [])"

section \<open>The Reddit service\<close>

definition token_request :: "string \<Rightarrow> string \<Rightarrow> request" where
  "token_request clientId clientSecret =
     \<lparr>req_method = ''POST'',
      url = ''https://www.reddit.com/api/v1/access_token'',
      headers =
        [(''Authorization'', ''Basic '' @ base64 (clientId @ '':'' @ clientSecret)),
         (''Content-Type'', ''application/x-www-form-urlencoded''),
         (''User-Agent'', ''FairDataUse/1.0.0'')],
      body = Some ''grant_type=client_credentials''\<rparr>"

definition getRedditAccessToken :: "runtime \<Rightarrow> jsval async" where
  "getRedditAccessToken rt tr0 =
     (let tr = tr0 @ [Call ''getRedditAccessToken''] in
      case (REDDIT_CLIENT_ID rt, REDDIT_CLIENT_SECRET rt) of
        (Some clientId, Some clientSecret) \<Rightarrow>
          if clientId = [] \<or> clientSecret = [] then
            (Rejected (new_Error ''Reddit API credentials not configured''), tr)
          else
            (case fetch rt (token_request clientId clientSecret) tr of
               (Pending, tr1) \<Rightarrow> (Pending, tr1)
             | (Rejected e, tr1) \<Rightarrow> (Rejected e, tr1)
             | (Resolved response, tr1) \<Rightarrow>
                 if \<not> ok response then
                   (case text_result response of
                      Pending \<Rightarrow> (Pending, tr1)
                    | Rejected e \<Rightarrow> (Rejected e, tr1)
                    | Resolved errorText \<Rightarrow>
                        (Rejected (new_Error (''Failed to get Reddit OAuth token: '' @ errorText)),
                         tr1))
                 else
                   (case json_result response of
                      Pending \<Rightarrow> (Pending, tr1)
                    | Rejected e \<Rightarrow> (Rejected e, tr1)
                    | Resolved data \<Rightarrow>
                        (case get_prop (engine_message rt) data ''access_token'' of
                           Inl e \<Rightarrow> (Rejected e, tr1)
                         | Inr access_token \<Rightarrow> (Resolved access_token, tr1))))
      | _ \<Rightarrow> (Rejected (new_Error ''Reddit API credentials not configured''), tr))"

definition top_request :: "string \<Rightarrow> js_number \<Rightarrow> string \<Rightarrow> request" where
  "top_request subreddit limit bearer =
     \<lparr>req_method = ''GET'',
      url = ''https://oauth.reddit.com/r/'' @ subreddit @ ''/top.json?limit='' @ number_text limit,
      headers = [(''Authorization'', ''Bearer '' @ bearer), (''User-Agent'', ''FairDataUse/1.0.0'')],
      body = None\<rparr>"

text \<open>The \<^verbatim>\<open>try\<close> block of \<^verbatim>\<open>getTop\<close>, the defaults of its two parameters applied.\<close>

definition getTop_try :: "runtime \<Rightarrow> string \<Rightarrow> js_number \<Rightarrow> jsval list async" where
  "getTop_try rt subreddit limit tr =
     (case getRedditAccessToken rt tr of
        (Pending, tr1) \<Rightarrow> (Pending, tr1)
      | (Rejected e, tr1) \<Rightarrow> (Rejected e, tr1)
      | (Resolved accessToken, tr1) \<Rightarrow>
          (case to_template (engine_message rt) accessToken of
             Inl e \<Rightarrow> (Rejected e, tr1)
           | Inr bearer \<Rightarrow>
               (case fetch rt (top_request subreddit limit bearer) tr1 of
                  (Pending, tr2) \<Rightarrow> (Pending, tr2)
                | (Rejected e, tr2) \<Rightarrow> (Rejected e, tr2)
                | (Resolved response, tr2) \<Rightarrow>
                    if status response = 429 then
                      (Rejected (new_Error ''Reddit API rate limit exceeded''), tr2)
                    else if \<not> ok response then
                      (case text_result response of
                         Pending \<Rightarrow> (Pending, tr2)
                       | Rejected e \<Rightarrow> (Rejected e, tr2)
                       | Resolved errorText \<Rightarrow>
                           (Rejected (new_Error (''Reddit API error: '' @ show_nat (status response)
                                                 @ '' - '' @ errorText)), tr2))
                    else
                      (case json_result response of
                         Pending \<Rightarrow> (Pending, tr2)
                       | Rejected e \<Rightarrow> (Rejected e, tr2)
                       | Resolved data \<Rightarrow>
                           (case get_prop (engine_message rt) data ''data'' of
                              Inl e \<Rightarrow> (Rejected e, tr2)
                            | Inr d \<Rightarrow>
                                (case get_prop (engine_message rt) d ''children'' of
                                   Inl e \<Rightarrow> (Rejected e, tr2)
                                 | Inr children \<Rightarrow>
                                     (case call_map (engine_message rt) children of
                                        Inl e \<Rightarrow> (Rejected e, tr2)
                                      | Inr posts \<Rightarrow> (Resolved posts, tr2))))))))"

text \<open>The parameter defaults \<^verbatim>\<open>subreddit = "all"\<close> and \<^verbatim>\<open>limit = 10\<close>.\<close>

definition default_subreddit :: "string option \<Rightarrow> string" where
  "default_subreddit s = (case s of None \<Rightarrow> ''all'' | Some x \<Rightarrow> x)"

definition default_limit :: "js_number option \<Rightarrow> js_number" where
  "default_limit l = (case l of None \<Rightarrow> JsNumber ''10'' | Some n \<Rightarrow> n)"

definition getTop :: "runtime \<Rightarrow> string option \<Rightarrow> js_number option \<Rightarrow> jsval list async" where
  "getTop rt subreddit limit tr =
     (case getTop_try rt (default_subreddit subreddit) (default_limit limit) tr of
        (Rejected error, tr') \<Rightarrow>
          if str_includes (message error) ''rate limit'' then (Rejected error, tr')
          else (Rejected (new_Error (''Failed to fetch Reddit top posts: '' @ message error)), tr')
      | r \<Rightarrow> r)"

definition about_request :: "string \<Rightarrow> string \<Rightarrow> request" where
  "about_request username bearer =
     \<lparr>req_method = ''GET'',
      url = ''https://oauth.reddit.com/user/'' @ username @ ''/about'',
      headers = [(''Authorization'', ''Bearer '' @ bearer), (''User-Agent'', ''FairDataUse/1.0.0'')],
      body = None\<rparr>"

text \<open>The \<^verbatim>\<open>try\<close> block of \<^verbatim>\<open>verifyRedditUser\<close>.\<close>

definition verifyRedditUser_try :: "runtime \<Rightarrow> string \<Rightarrow> bool async" where
  "verifyRedditUser_try rt username tr =
     (case getRedditAccessToken rt tr of
        (Pending, tr1) \<Rightarrow> (Pending, tr1)
      | (Rejected e, tr1) \<Rightarrow> (Rejected e, tr1)
      | (Resolved accessToken, tr1) \<Rightarrow>
          (case to_template (engine_message rt) accessToken of
             Inl e \<Rightarrow> (Rejected e, tr1)
           | Inr bearer \<Rightarrow>
               (case fetch rt (about_request username bearer) tr1 of
                  (Pending, tr2) \<Rightarrow> (Pending, tr2)
                | (Rejected e, tr2) \<Rightarrow> (Rejected e, tr2)
                | (Resolved response, tr2) \<Rightarrow> (Resolved (ok response), tr2))))"

definition verifyRedditUser :: "runtime \<Rightarrow> string \<Rightarrow> bool async" where
  "verifyRedditUser rt username tr =
     (case verifyRedditUser_try rt username tr of
        (Rejected error, tr') \<Rightarrow>
          (Resolved False,
           tr' @ [ConsoleError (''Error verifying Reddit user '' @ username @ '':'') error])
      | r \<Rightarrow> r)"

section \<open>Observing a trace\<close>

text \<open>The requests that went out, in order.\<close>

definition requests_of :: "event list \<Rightarrow> request list" where
  "requests_of tr = concat (map (\<lambda>e. case e of Fetch r \<Rightarrow> [r] | _ \<Rightarrow> []) tr)"

text \<open>
  How often \<^verbatim>\<open>getRedditAccessToken\<close> was entered, and how often the token endpoint was
  posted to.
\<close>

definition token_calls :: "event list \<Rightarrow> nat" where
  "token_calls tr = length (filter (\<lambda>e. e = Call ''getRedditAccessToken'') tr)"

definition token_posts :: "event list \<Rightarrow> nat" where
  "token_posts tr =
     length (filter (\<lambda>r. req_method r = ''POST'' \<and> url r = ''https://www.reddit.com/api/v1/access_token'')
               (requests_of tr))"

definition configured :: "runtime \<Rightarrow> bool" where
  "configured rt = (\<not> falsy (REDDIT_CLIENT_ID rt) \<and> \<not> falsy (REDDIT_CLIENT_SECRET rt))"

text \<open>
  A runtime in which nothing hangs: every request is answered or fails, and so does the
  reading of every body.
\<close>

definition settles :: "runtime \<Rightarrow> bool" where
  "settles rt =
     (\<forall>tr req. network rt tr req \<noteq> Pending \<and>
        (\<forall>resp. network rt tr req = Resolved resp \<longrightarrow>
           text_result resp \<noteq> Pending \<and> json_result resp \<noteq> Pending))"

section \<open>Concrete runtimes\<close>

text \<open>
  The runtimes the examples below run in, after the mocks of the test suite
  (\<^verbatim>\<open>tests/integration/server/health.test.ts\<close>, \<^verbatim>\<open>tests/mocks/reddit.ts\<close>): the token
  endpoint answers every \<^verbatim>\<open>POST\<close> with one fixed outcome, the resource endpoint every
  other request with another.
\<close>

definition mock_message :: "engine_fault \<Rightarrow> string" where
  "mock_message f =
     (case f of
        ReadOfNullish v k \<Rightarrow> ''Cannot read properties of '' @ (if v = JNull then ''null'' else ''undefined'')
                              @ '' (reading '' @ k @ '')''
      | NotAFunction v k \<Rightarrow> k @ '' is not a function''
      | NoPrimitive v \<Rightarrow> ''Cannot convert object to primitive value'')"

definition mock_token_response :: response where
  "mock_token_response =
     \<lparr>status = 200,
      text_result = Resolved ''mock token body'',
      json_result = Resolved (JObj [(''access_token'', JStr ''mock_access_token_12345''),
                                    (''token_type'', JStr ''bearer''),
                                    (''expires_in'', JNum (JsNumber ''3600''))])\<rparr>"

definition plain_response :: "nat \<Rightarrow> string \<Rightarrow> response" where
  "plain_response st b =
     \<lparr>status = st, text_result = Resolved b,
      json_result = Rejected (JsError ''SyntaxError'' ''Unexpected token'')\<rparr>"

definition mock_network ::
  "response settled \<Rightarrow> response settled \<Rightarrow> event list \<Rightarrow> request \<Rightarrow> response settled" where
  "mock_network token_outcome resource_outcome tr req =
     (if req_method req = ''POST'' then token_outcome else resource_outcome)"

definition mock_runtime :: "response settled \<Rightarrow> response settled \<Rightarrow> runtime" where
  "mock_runtime token_outcome resource_outcome =
     \<lparr>REDDIT_CLIENT_ID = Some ''test_client_id'',
      REDDIT_CLIENT_SECRET = Some ''test_client_secret'',
      engine_message = mock_message,
      network = mock_network token_outcome resource_outcome\<rparr>"

definition unconfigured_runtime :: runtime where
  "unconfigured_runtime = (mock_runtime Pending Pending)\<lparr>REDDIT_CLIENT_SECRET := None\<rparr>"

section \<open>Qualification and the applicant store\<close>

text \<open>
  The route \<^verbatim>\<open>server/routes/social-qualify-form.ts\<close> and the schema of the \<^verbatim>\<open>users\<close>
  table are exercised by \<^verbatim>\<open>tests/integration/server/database-endpoint.test.ts\<close> but are
  not among the sources at hand. The definitions of this section follow the written
  specification of the qualification orchestrator and of the persistence layer instead.
\<close>

text \<open>Modelled from the spec: the input of a qualification request (the route's request body).\<close>

record applicant_input =
  email :: string
  phone :: string
  reddit_handle :: string
  other_handles :: "(string \<times> string) list"

text \<open>
  Modelled from the spec: a row of the Applicant table (the \<^verbatim>\<open>users\<close> table of the missing
  schema), without its timestamps.
\<close>

record applicant =
  applicant_email :: string
  applicant_phone :: string
  reddit_username :: string
  other_usernames :: "(string \<times> string) list"
  verified :: bool

text \<open>Modelled from the spec: the identity key (email, phone) of the missing schema.\<close>

definition identity_key :: "applicant \<Rightarrow> string \<times> string" where
  "identity_key row = (applicant_email row, applicant_phone row)"

text \<open>Modelled from the spec: the store's \<^verbatim>\<open>select Applicant by (email,phone)\<close>.\<close>

definition select_applicant :: "applicant list \<Rightarrow> string \<times> string \<Rightarrow> applicant option" where
  "select_applicant store k = find (\<lambda>row. identity_key row = k) store"

text \<open>
  Modelled from the spec: the store's \<^verbatim>\<open>insert Applicant\<close>, which fails with a
  uniqueness-violation signal on a duplicate key.
\<close>

datatype storage_error = UniquenessViolation

definition insert_applicant :: "applicant list \<Rightarrow> applicant \<Rightarrow> storage_error + applicant list" where
  "insert_applicant store row =
     (if identity_key row \<in> set (map identity_key store) then Inl UniquenessViolation
      else Inr (store @ [row]))"

text \<open>
  Modelled from the spec: the company catalog, an ordered list of company records, and its
  \<^verbatim>\<open>matchFor\<close>, the first entry whose availability flag is set.
\<close>

record company =
  slug :: string
  display_name :: string
  hourly_rate :: nat
  signing_bonus :: nat
  available :: bool

definition matchFor :: "company list \<Rightarrow> applicant_input \<Rightarrow> company option" where
  "matchFor catalog input = find available catalog"

text \<open>
  Modelled from the spec: what the verification client's \<^verbatim>\<open>exists\<close> reports to the
  orchestrator, a boolean or one of the upstream failures of the error taxonomy.
\<close>

datatype upstream_failure = RateLimitedError | UpstreamError nat string | NetworkError

datatype verdict = Exists bool | Unverifiable upstream_failure

text \<open>Modelled from the spec: the errors of the qualification orchestrator.\<close>

datatype qualification_error =
    ValidationError
  | DuplicateError string
  | VerificationFailedError string
  | UpstreamFailure upstream_failure
  | ConfigurationError

text \<open>
  Modelled from the spec: what the specification leaves to configuration. It does not say
  when an email or a phone number is well-formed, and it leaves open whether a
  qualification without an available company persists the applicant or fails; both are
  parameters.
\<close>

record qualifier =
  well_formed_email :: "string \<Rightarrow> bool"
  well_formed_phone :: "string \<Rightarrow> bool"
  catalog :: "company list"
  match_required :: bool

text \<open>
  Modelled from the spec: one submission, its input together with the verdict the
  verification client will give for it.
\<close>

record submission =
  form :: applicant_input
  verification :: verdict

text \<open>
  Modelled from the spec: step 1 of \<^verbatim>\<open>submit\<close>; email and phone present and well-formed,
  reddit handle present.
\<close>

definition valid_input :: "qualifier \<Rightarrow> applicant_input \<Rightarrow> bool" where
  "valid_input q input =
     (email input \<noteq> [] \<and> well_formed_email q (email input)
      \<and> phone input \<noteq> [] \<and> well_formed_phone q (phone input)
      \<and> reddit_handle input \<noteq> [])"

text \<open>Modelled from the spec: the (email, phone) pair a submission is looked up and stored under.\<close>

definition submitted_key :: "submission \<Rightarrow> string \<times> string" where
  "submitted_key s = (email (form s), phone (form s))"

text \<open>Modelled from the spec: the row of step 5, persisted with \<^verbatim>\<open>verified = true\<close>.\<close>

definition new_applicant :: "applicant_input \<Rightarrow> applicant" where
  "new_applicant input =
     \<lparr>applicant_email = email input, applicant_phone = phone input,
      reddit_username = reddit_handle input, other_usernames = other_handles input,
      verified = True\<rparr>"

text \<open>Modelled from the spec: the two error values with a prescribed message.\<close>

definition already_exists :: qualification_error where
  "already_exists = DuplicateError ''already exists''"

definition does_not_exist :: "string \<Rightarrow> qualification_error" where
  "does_not_exist handle =
     VerificationFailedError (''reddit user '' @ [CHR 0x27] @ handle @ [CHR 0x27] @ '' does not exist'')"

text \<open>
  Modelled from the spec: steps 4 to 6 of \<^verbatim>\<open>submit\<close>; match a company, insert the row, and
  translate a uniqueness violation of the store into the duplicate error of step 2.
\<close>

definition persist ::
  "qualifier \<Rightarrow> applicant_input \<Rightarrow> applicant list
     \<Rightarrow> (qualification_error + company option) \<times> applicant list" where
  "persist q input store =
     (let matched = matchFor (catalog q) input in
      if matched = None \<and> match_required q then (Inl ConfigurationError, store)
      else
        (case insert_applicant store (new_applicant input) of
           Inl UniquenessViolation \<Rightarrow> (Inl already_exists, store)
         | Inr store' \<Rightarrow> (Inr matched, store')))"

text \<open>
  Modelled from the spec: the qualification orchestrator's \<^verbatim>\<open>submit\<close>, steps 1 to 6, run
  without interruption against one store.
\<close>

definition submit ::
  "qualifier \<Rightarrow> submission \<Rightarrow> applicant list
     \<Rightarrow> (qualification_error + company option) \<times> applicant list" where
  "submit q s store =
     (if \<not> valid_input q (form s) then (Inl ValidationError, store)
      else if select_applicant store (submitted_key s) \<noteq> None then (Inl already_exists, store)
      else
        (case verification s of
           Exists False \<Rightarrow> (Inl (does_not_exist (reddit_handle (form s))), store)
         | Unverifiable f \<Rightarrow> (Inl (UpstreamFailure f), store)
         | Exists True \<Rightarrow> persist q (form s) store))"

text \<open>
  Modelled from the spec: the same algorithm cut at its suspension points, the database
  round-trips and the outbound verification call. A submission has been submitted, has
  passed the check of step 2, has been verified, or is finished with its result; each step
  runs against the store as it is when the step is taken.
\<close>

datatype phase =
    Submitted
  | PreChecked
  | Verified
  | Finished "qualification_error + company option"

fun advance :: "qualifier \<Rightarrow> submission \<Rightarrow> phase \<Rightarrow> applicant list \<Rightarrow> phase \<times> applicant list" where
  "advance q s Submitted store =
     (if \<not> valid_input q (form s) then (Finished (Inl ValidationError), store)
      else if select_applicant store (submitted_key s) \<noteq> None
        then (Finished (Inl already_exists), store)
      else (PreChecked, store))"
| "advance q s PreChecked store =
     (case verification s of
        Exists False \<Rightarrow> (Finished (Inl (does_not_exist (reddit_handle (form s)))), store)
      | Unverifiable f \<Rightarrow> (Finished (Inl (UpstreamFailure f)), store)
      | Exists True \<Rightarrow> (Verified, store))"
| "advance q s Verified store =
     (case persist q (form s) store of (r, store') \<Rightarrow> (Finished r, store'))"
| "advance q s (Finished r) store = (Finished r, store)"

text \<open>
  Modelled from the spec: two submissions handled concurrently. A schedule says whose step
  comes next; in between, other requests may insert rows of their own through the store.
\<close>

datatype move = First | Second | Other applicant

fun step ::
  "qualifier \<Rightarrow> submission \<Rightarrow> submission \<Rightarrow> applicant list \<times> phase \<times> phase \<Rightarrow> move
     \<Rightarrow> applicant list \<times> phase \<times> phase" where
  "step q s1 s2 (store, p1, p2) First =
     (case advance q s1 p1 store of (p1', store') \<Rightarrow> (store', p1', p2))"
| "step q s1 s2 (store, p1, p2) Second =
     (case advance q s2 p2 store of (p2', store') \<Rightarrow> (store', p1, p2'))"
| "step q s1 s2 (store, p1, p2) (Other row) =
     (case insert_applicant store row of
        Inl UniquenessViolation \<Rightarrow> (store, p1, p2)
      | Inr store' \<Rightarrow> (store', p1, p2))"

definition interleave ::
  "qualifier \<Rightarrow> submission \<Rightarrow> submission \<Rightarrow> move list \<Rightarrow> applicant list
     \<Rightarrow> applicant list \<times> phase \<times> phase" where
  "interleave q s1 s2 schedule store = foldl (step q s1 s2) (store, Submitted, Submitted) schedule"

text \<open>The invariant of the Applicant table: no two rows share an (email, phone) pair.\<close>

definition unique_identities :: "applicant list \<Rightarrow> bool" where
  "unique_identities store = distinct (map identity_key store)"

definition rows_of :: "applicant list \<Rightarrow> string \<times> string \<Rightarrow> nat" where
  "rows_of store k = length (filter (\<lambda>row. identity_key row = k) store)"

text \<open>
  A submission that nothing but a duplicate can stop: its input is valid, its account is
  verified, and a company is available or none is required.
\<close>

definition qualifies :: "qualifier \<Rightarrow> submission \<Rightarrow> bool" where
  "qualifies q s =
     (valid_input q (form s) \<and> verification s = Exists True
      \<and> (matchFor (catalog q) (form s) \<noteq> None \<or> \<not> match_required q))"

fun other_keys :: "move list \<Rightarrow> (string \<times> string) list" where
  "other_keys [] = []"
| "other_keys (Other row # ms) = identity_key row # other_keys ms"
| "other_keys (m # ms) = other_keys ms"

definition finished :: "phase \<Rightarrow> bool" where
  "finished p = (case p of Finished r \<Rightarrow> True | _ \<Rightarrow> False)"

definition succeeded :: "phase \<Rightarrow> bool" where
  "succeeded p = (case p of Finished (Inr m) \<Rightarrow> True | _ \<Rightarrow> False)"

definition won_or_duplicate :: "phase \<Rightarrow> bool" where
  "won_or_duplicate p = (case p of Finished (Inl e) \<Rightarrow> e = already_exists | _ \<Rightarrow> True)"

text \<open>
  What holds throughout a race of two qualifying submissions for the key \<open>k\<close>, when the
  store did not hold \<open>k\<close> at the start and nobody else inserts it.
\<close>

definition race_invariant :: "string \<times> string \<Rightarrow> applicant list \<times> phase \<times> phase \<Rightarrow> bool" where
  "race_invariant k c =
     (case c of (store, p1, p2) \<Rightarrow>
        unique_identities store
        \<and> won_or_duplicate p1 \<and> won_or_duplicate p2
        \<and> (finished p1 \<longrightarrow> k \<in> set (map identity_key store))
        \<and> (finished p2 \<longrightarrow> k \<in> set (map identity_key store))
        \<and> \<not> (succeeded p1 \<and> succeeded p2)
        \<and> (k \<in> set (map identity_key store) \<longrightarrow> succeeded p1 \<or> succeeded p2))"

text \<open>How many of its steps a submission has behind it; after three it is finished.\<close>

definition progress :: "phase \<Rightarrow> nat" where
  "progress p = (case p of Submitted \<Rightarrow> 0 | PreChecked \<Rightarrow> 1 | Verified \<Rightarrow> 2 | Finished r \<Rightarrow> 3)"

text \<open>An example after the scenarios of the specification and of the test suite.\<close>

definition example_qualifier :: qualifier where
  "example_qualifier =
     \<lparr>well_formed_email = (\<lambda>e. CHR ''@'' \<in> set e),
      well_formed_phone = (\<lambda>p. True),
      catalog = [\<lparr>slug = ''acme'', display_name = ''Acme Co'', hourly_rate = 20,
                  signing_bonus = 100, available = True\<rparr>],
      match_required = False\<rparr>"

definition example_submission :: "string \<Rightarrow> submission" where
  "example_submission ph =
     \<lparr>form = \<lparr>email = ''a@x.com'', phone = ph, reddit_handle = ''testuser'', other_handles = []\<rparr>,
      verification = Exists True\<rparr>"

definition example_schedule :: "move list" where
  "example_schedule =
     [First, Second, First, Second,
      Other (new_applicant (form (example_submission ''555-0199''))), Second, First]"

section \<open>The trace of an invocation\<close>

lemma getRedditAccessToken_trace:
  "snd (getRedditAccessToken rt tr) =
     tr @ Call ''getRedditAccessToken'' #
       (case (REDDIT_CLIENT_ID rt, REDDIT_CLIENT_SECRET rt) of
          (Some i, Some s) \<Rightarrow> if i = [] \<or> s = [] then [] else [Fetch (token_request i s)]
        | _ \<Rightarrow> [])"
  by (simp add: getRedditAccessToken_def fetch_def Let_def
           split: option.splits prod.splits settled.splits sum.splits)

lemma token_calls_append: "token_calls (xs @ ys) = token_calls xs + token_calls ys"
  by (simp add: token_calls_def)

lemma token_posts_append: "token_posts (xs @ ys) = token_posts xs + token_posts ys"
  by (simp add: token_posts_def requests_of_def)

lemma getRedditAccessToken_token_calls:
  "token_calls (snd (getRedditAccessToken rt tr)) = token_calls tr + 1"
  by (simp add: getRedditAccessToken_trace token_calls_append)
     (simp add: token_calls_def split: option.splits)

lemma getRedditAccessToken_token_posts:
  "token_posts (snd (getRedditAccessToken rt tr)) = token_posts tr + (if configured rt then 1 else 0)"
  by (simp add: getRedditAccessToken_trace token_posts_append [of tr])
     (simp add: token_posts_def requests_of_def configured_def falsy_def token_request_def
           split: option.splits)

lemma getTop_try_trace:
  "\<exists>evs. snd (getTop_try rt s l tr) = snd (getRedditAccessToken rt tr) @ evs
       \<and> token_calls evs = 0 \<and> token_posts evs = 0"
  by (cases "getRedditAccessToken rt tr")
     (auto simp: getTop_try_def fetch_def token_calls_def token_posts_def requests_of_def
                 top_request_def
           split: settled.splits sum.splits)

lemma getTop_trace:
  "snd (getTop rt s l tr) = snd (getTop_try rt (default_subreddit s) (default_limit l) tr)"
  by (simp add: getTop_def split: prod.splits settled.splits)

lemma verifyRedditUser_try_trace:
  "\<exists>evs. snd (verifyRedditUser_try rt u tr) = snd (getRedditAccessToken rt tr) @ evs
       \<and> token_calls evs = 0 \<and> token_posts evs = 0"
  by (cases "getRedditAccessToken rt tr")
     (auto simp: verifyRedditUser_try_def fetch_def token_calls_def token_posts_def requests_of_def
                 about_request_def
           split: settled.splits sum.splits)

lemma verifyRedditUser_trace:
  "\<exists>evs. snd (verifyRedditUser rt u tr) = snd (verifyRedditUser_try rt u tr) @ evs
       \<and> token_calls evs = 0 \<and> token_posts evs = 0"
  by (cases "verifyRedditUser_try rt u tr")
     (auto simp: verifyRedditUser_def token_calls_def token_posts_def requests_of_def
           split: settled.splits)

section \<open>Outcomes of the three functions\<close>

lemma getTop_Rejected:
  assumes "getTop_try rt (default_subreddit subreddit) (default_limit limit) tr = (Rejected e, tr')"
  shows "getTop rt subreddit limit tr =
           (Rejected (if str_includes (message e) ''rate limit'' then e
                      else new_Error (''Failed to fetch Reddit top posts: '' @ message e)), tr')"
  using assms by (simp add: getTop_def)


lemma getRedditAccessToken_settles:
  "settles rt \<Longrightarrow> fst (getRedditAccessToken rt tr) \<noteq> Pending"
  unfolding settles_def getRedditAccessToken_def fetch_def Let_def
  by (auto split: option.splits settled.splits sum.splits)

lemma verifyRedditUser_try_settles:
  "settles rt \<Longrightarrow> fst (verifyRedditUser_try rt username tr) \<noteq> Pending"
  using getRedditAccessToken_settles [of rt tr]
  unfolding settles_def verifyRedditUser_try_def fetch_def
  by (cases "getRedditAccessToken rt tr") (auto split: settled.splits sum.splits)

lemma getTop_try_settles:
  "settles rt \<Longrightarrow> fst (getTop_try rt s l tr) \<noteq> Pending"
  using getRedditAccessToken_settles [of rt tr]
  unfolding settles_def getTop_try_def fetch_def
  by (cases "getRedditAccessToken rt tr") (auto split: settled.splits sum.splits)

lemma getTop_Pending:
  "fst (getTop rt subreddit limit tr) = Pending \<longleftrightarrow>
   fst (getTop_try rt (default_subreddit subreddit) (default_limit limit) tr) = Pending"
  by (cases "getTop_try rt (default_subreddit subreddit) (default_limit limit) tr")
     (auto simp: getTop_def split: settled.splits)

lemma verifyRedditUser_Pending:
  "fst (verifyRedditUser rt username tr) = Pending \<longleftrightarrow>
   fst (verifyRedditUser_try rt username tr) = Pending"
  by (cases "verifyRedditUser_try rt username tr")
     (auto simp: verifyRedditUser_def split: settled.splits)

section \<open>The concrete runtimes at work\<close>

lemma mock_runtime_sel:
  "network (mock_runtime a b) = mock_network a b"
  "engine_message (mock_runtime a b) = mock_message"
  "REDDIT_CLIENT_ID (mock_runtime a b) = Some ''test_client_id''"
  "REDDIT_CLIENT_SECRET (mock_runtime a b) = Some ''test_client_secret''"
  by (simp_all add: mock_runtime_def)

lemma mock_token:
  "getRedditAccessToken (mock_runtime (Resolved mock_token_response) r) [] =
     (Resolved (JStr ''mock_access_token_12345''),
      [Call ''getRedditAccessToken'', Fetch (token_request ''test_client_id'' ''test_client_secret'')])"
  by (simp add: getRedditAccessToken_def mock_runtime_sel mock_network_def fetch_def
                token_request_def mock_token_response_def ok_def)

lemma mock_token_rejected:
  "getRedditAccessToken (mock_runtime (Rejected e) r) [] =
     (Rejected e,
      [Call ''getRedditAccessToken'', Fetch (token_request ''test_client_id'' ''test_client_secret'')])"
  by (simp add: getRedditAccessToken_def mock_runtime_sel mock_network_def fetch_def token_request_def)

lemma mock_settles: "a \<noteq> Pending \<Longrightarrow> b \<noteq> Pending \<Longrightarrow>
    (\<And>r. a = Resolved r \<Longrightarrow> text_result r \<noteq> Pending \<and> json_result r \<noteq> Pending) \<Longrightarrow>
    (\<And>r. b = Resolved r \<Longrightarrow> text_result r \<noteq> Pending \<and> json_result r \<noteq> Pending) \<Longrightarrow>
    settles (mock_runtime a b)"
  by (auto simp: settles_def mock_runtime_sel mock_network_def)

section \<open>Token acquisition\<close>

text \<open>
  Claim C4. When the client identifier or the client secret is not configured (unset, or
  set to the empty string), \<^verbatim>\<open>getRedditAccessToken\<close> rejects at once with the error
  ``Reddit API credentials not configured'', and no request goes out: the requests of the
  trace are those that were there before the call.
\<close>

theorem getRedditAccessToken_unconfigured:
  assumes "falsy (REDDIT_CLIENT_ID rt) \<or> falsy (REDDIT_CLIENT_SECRET rt)"
  shows "fst (getRedditAccessToken rt tr) = Rejected (new_Error ''Reddit API credentials not configured'')
       \<and> requests_of (snd (getRedditAccessToken rt tr)) = requests_of tr"
  using assms
  by (auto simp: getRedditAccessToken_def falsy_def requests_of_def Let_def split: option.splits)

theorem getRedditAccessToken_unconfigured_witness:
  "falsy (REDDIT_CLIENT_SECRET unconfigured_runtime)
   \<and> fst (getRedditAccessToken unconfigured_runtime []) =
       Rejected (new_Error ''Reddit API credentials not configured'')
   \<and> requests_of (snd (getRedditAccessToken unconfigured_runtime [])) = []"
proof -
  have h: "falsy (REDDIT_CLIENT_ID unconfigured_runtime) \<or> falsy (REDDIT_CLIENT_SECRET unconfigured_runtime)"
    by (simp add: unconfigured_runtime_def falsy_def)
  show ?thesis
    using getRedditAccessToken_unconfigured [OF h, of "[]"]
    by (simp add: unconfigured_runtime_def falsy_def requests_of_def)
qed

text \<open>
  Claim C5 says that a non-success response of the token endpoint yields an error carrying
  the upstream status and the upstream body. The error thrown carries the body only: a
  401 and a 500 with one body give the same error.
\<close>

theorem getRedditAccessToken_status_counterexample:
  "fst (getRedditAccessToken (mock_runtime (Resolved (plain_response 401 ''invalid_client'')) Pending) []) =
     Rejected (JsError ''Error'' ''Failed to get Reddit OAuth token: invalid_client'')
   \<and> fst (getRedditAccessToken (mock_runtime (Resolved (plain_response 500 ''invalid_client'')) Pending) []) =
     fst (getRedditAccessToken (mock_runtime (Resolved (plain_response 401 ''invalid_client'')) Pending) [])"
  by (simp add: getRedditAccessToken_def mock_runtime_sel mock_network_def fetch_def token_request_def
                plain_response_def ok_def new_Error_def)

text \<open>
  Claim C5, as the code has it. When the credentials are configured and the token endpoint
  answers with a status outside 200 to 299 whose body can be read, \<^verbatim>\<open>getRedditAccessToken\<close>
  rejects with an \<^verbatim>\<open>Error\<close> whose message is ``Failed to get Reddit OAuth token: ''
  followed by the body. The status is not part of the error.
\<close>

theorem getRedditAccessToken_upstream_failure:
  assumes "REDDIT_CLIENT_ID rt = Some clientId" and "REDDIT_CLIENT_SECRET rt = Some clientSecret"
      and "clientId \<noteq> []" and "clientSecret \<noteq> []"
      and "network rt (tr @ [Call ''getRedditAccessToken'']) (token_request clientId clientSecret) = Resolved resp"
      and "\<not> ok resp"
      and "text_result resp = Resolved errorText"
  shows "fst (getRedditAccessToken rt tr) =
           Rejected (new_Error (''Failed to get Reddit OAuth token: '' @ errorText))"
  using assms by (simp add: getRedditAccessToken_def fetch_def)

theorem getRedditAccessToken_upstream_failure_witness:
  "fst (getRedditAccessToken (mock_runtime (Resolved (plain_response 401 ''invalid_client'')) Pending) []) =
     Rejected (new_Error ''Failed to get Reddit OAuth token: invalid_client'')"
proof -
  let ?rt = "mock_runtime (Resolved (plain_response 401 ''invalid_client'')) Pending"
  have n: "network ?rt ([] @ [Call ''getRedditAccessToken'']) (token_request ''test_client_id'' ''test_client_secret'')
             = Resolved (plain_response 401 ''invalid_client'')"
    by (simp add: mock_runtime_sel mock_network_def token_request_def)
  have k: "\<not> ok (plain_response 401 ''invalid_client'')"
    by (simp add: ok_def plain_response_def)
  have x: "text_result (plain_response 401 ''invalid_client'') = Resolved ''invalid_client''"
    by (simp add: plain_response_def)
  have i: "''test_client_id'' \<noteq> []" and j: "''test_client_secret'' \<noteq> []" by simp_all
  show ?thesis
    using getRedditAccessToken_upstream_failure [OF mock_runtime_sel(3) mock_runtime_sel(4) i j n k x]
    by simp
qed

section \<open>Verifying a user\<close>

text \<open>
  Claim C3. Once the token is acquired and the platform answers the verification request,
  \<^verbatim>\<open>verifyRedditUser\<close> resolves with \<open>True\<close> on status 200, whatever the payload, and
  with \<open>False\<close> on status 404; in neither case is an error raised.
\<close>

theorem verifyRedditUser_200_true_404_false:
  assumes "getRedditAccessToken rt tr = (Resolved accessToken, tr1)"
      and "to_template (engine_message rt) accessToken = Inr bearer"
      and "network rt tr1 (about_request username bearer) = Resolved resp"
  shows "(status resp = 200 \<longrightarrow> fst (verifyRedditUser rt username tr) = Resolved True)
       \<and> (status resp = 404 \<longrightarrow> fst (verifyRedditUser rt username tr) = Resolved False)"
  using assms by (simp add: verifyRedditUser_def verifyRedditUser_try_def fetch_def ok_def)

theorem verifyRedditUser_200_true_404_false_witness:
  "fst (verifyRedditUser (mock_runtime (Resolved mock_token_response) (Resolved (plain_response 200 ''a user''))) ''testuser'' []) = Resolved True
   \<and> fst (verifyRedditUser (mock_runtime (Resolved mock_token_response) (Resolved (plain_response 404 ''not_found''))) ''nonexistent'' []) = Resolved False"
proof -
  let ?rt = "\<lambda>st b. mock_runtime (Resolved mock_token_response) (Resolved (plain_response st b))"
  let ?tr1 = "[Call ''getRedditAccessToken'', Fetch (token_request ''test_client_id'' ''test_client_secret'')]"
  have t: "to_template (engine_message (?rt st b)) (JStr ''mock_access_token_12345'') = Inr ''mock_access_token_12345''" for st b
    by simp
  have n: "network (?rt st b) ?tr1 (about_request u ''mock_access_token_12345'') = Resolved (plain_response st b)" for st b u
    by (simp add: mock_runtime_sel mock_network_def about_request_def)
  show ?thesis
    using verifyRedditUser_200_true_404_false [OF mock_token t n, of 200 "''a user''" "''testuser''"]
          verifyRedditUser_200_true_404_false [OF mock_token t n, of 404 "''not_found''" "''nonexistent''"]
    by (simp add: plain_response_def)
qed

text \<open>
  Claim C1 says that a 429 answer to the verification request yields a rate-limit error
  and not \<open>False\<close>. With the mocked platform answering 429, the function resolves with
  \<open>False\<close>.
\<close>

theorem verifyRedditUser_429_counterexample:
  "fst (verifyRedditUser (mock_runtime (Resolved mock_token_response) (Resolved (plain_response 429 ''rate_limit_exceeded''))) ''ratelimited'' []) = Resolved False"
  by (simp add: verifyRedditUser_def verifyRedditUser_try_def mock_token fetch_def
                mock_runtime_sel mock_network_def about_request_def plain_response_def ok_def)

text \<open>
  Claim C1, as the code has it. When the platform answers the verification request with
  status 429, \<^verbatim>\<open>verifyRedditUser\<close> resolves with \<open>False\<close>, as it does for every status
  outside 200 to 299; no error is raised and nothing is logged.
\<close>

theorem verifyRedditUser_429_false:
  assumes "getRedditAccessToken rt tr = (Resolved accessToken, tr1)"
      and "to_template (engine_message rt) accessToken = Inr bearer"
      and "network rt tr1 (about_request username bearer) = Resolved resp"
      and "status resp = 429"
  shows "verifyRedditUser rt username tr = (Resolved False, tr1 @ [Fetch (about_request username bearer)])"
  using assms by (simp add: verifyRedditUser_def verifyRedditUser_try_def fetch_def ok_def)

theorem verifyRedditUser_429_false_witness:
  "verifyRedditUser (mock_runtime (Resolved mock_token_response) (Resolved (plain_response 429 ''rate_limit_exceeded''))) ''ratelimited'' [] =
     (Resolved False,
      [Call ''getRedditAccessToken'', Fetch (token_request ''test_client_id'' ''test_client_secret''),
       Fetch (about_request ''ratelimited'' ''mock_access_token_12345'')])"
proof -
  let ?rt = "mock_runtime (Resolved mock_token_response) (Resolved (plain_response 429 ''rate_limit_exceeded''))"
  let ?tr1 = "[Call ''getRedditAccessToken'', Fetch (token_request ''test_client_id'' ''test_client_secret'')]"
  have t: "to_template (engine_message ?rt) (JStr ''mock_access_token_12345'') = Inr ''mock_access_token_12345''"
    by simp
  have n: "network ?rt ?tr1 (about_request ''ratelimited'' ''mock_access_token_12345'') = Resolved (plain_response 429 ''rate_limit_exceeded'')"
    by (simp add: mock_runtime_sel mock_network_def about_request_def)
  have s: "status (plain_response 429 ''rate_limit_exceeded'') = 429"
    by (simp add: plain_response_def)
  show ?thesis
    using verifyRedditUser_429_false [OF mock_token t n s] by simp
qed

text \<open>
  Claim C2 says that a failure other than a 404 propagates as an error and is never
  turned into \<open>False\<close>. With the verification request failing in transport, the function
  resolves with \<open>False\<close>, as the test ``should return false on network error'' expects.
\<close>

theorem verifyRedditUser_network_error_counterexample:
  "fst (verifyRedditUser (mock_runtime (Resolved mock_token_response) (Rejected (JsError ''TypeError'' ''fetch failed''))) ''testuser'' []) = Resolved False"
  by (simp add: verifyRedditUser_def verifyRedditUser_try_def mock_token fetch_def
                mock_runtime_sel mock_network_def about_request_def)

text \<open>
  Claim C2, as the code has it. A failure of token acquisition and a failure of the
  verification request in transport are caught, logged with \<^verbatim>\<open>console.error\<close> and turned
  into \<open>False\<close>; an answer with a status outside 200 to 299 gives \<open>False\<close> directly. None
  of them reaches the caller as an error.
\<close>

theorem verifyRedditUser_failure_is_false:
  "(getRedditAccessToken rt tr = (Rejected e, tr1) \<longrightarrow>
      verifyRedditUser rt username tr =
        (Resolved False, tr1 @ [ConsoleError (''Error verifying Reddit user '' @ username @ '':'') e]))
   \<and> (getRedditAccessToken rt tr = (Resolved accessToken, tr1)
        \<and> to_template (engine_message rt) accessToken = Inr bearer
        \<and> network rt tr1 (about_request username bearer) = Rejected e \<longrightarrow>
      verifyRedditUser rt username tr =
        (Resolved False, tr1 @ [Fetch (about_request username bearer),
                                ConsoleError (''Error verifying Reddit user '' @ username @ '':'') e]))
   \<and> (getRedditAccessToken rt tr = (Resolved accessToken, tr1)
        \<and> to_template (engine_message rt) accessToken = Inr bearer
        \<and> network rt tr1 (about_request username bearer) = Resolved resp
        \<and> \<not> ok resp \<longrightarrow>
      verifyRedditUser rt username tr = (Resolved False, tr1 @ [Fetch (about_request username bearer)]))"
  by (simp add: verifyRedditUser_def verifyRedditUser_try_def fetch_def)

theorem verifyRedditUser_failure_is_false_witness:
  "fst (verifyRedditUser (mock_runtime (Rejected (JsError ''TypeError'' ''fetch failed'')) Pending) ''testuser'' []) = Resolved False
   \<and> fst (verifyRedditUser (mock_runtime (Resolved mock_token_response) (Rejected (JsError ''TypeError'' ''fetch failed''))) ''testuser'' []) = Resolved False
   \<and> fst (verifyRedditUser (mock_runtime (Resolved mock_token_response) (Resolved (plain_response 500 ''Internal Server Error''))) ''testuser'' []) = Resolved False"
proof -
  let ?tr1 = "[Call ''getRedditAccessToken'', Fetch (token_request ''test_client_id'' ''test_client_secret'')]"
  let ?e = "JsError ''TypeError'' ''fetch failed''"
  let ?rt2 = "mock_runtime (Resolved mock_token_response) (Rejected ?e)"
  let ?rt3 = "mock_runtime (Resolved mock_token_response) (Resolved (plain_response 500 ''Internal Server Error''))"
  have t: "to_template (engine_message (mock_runtime a b)) (JStr ''mock_access_token_12345'') = Inr ''mock_access_token_12345''" for a b
    by simp
  have n2: "network ?rt2 ?tr1 (about_request ''testuser'' ''mock_access_token_12345'') = Rejected ?e"
    by (simp add: mock_runtime_sel mock_network_def about_request_def)
  have n3: "network ?rt3 ?tr1 (about_request ''testuser'' ''mock_access_token_12345'') = Resolved (plain_response 500 ''Internal Server Error'')"
    by (simp add: mock_runtime_sel mock_network_def about_request_def)
  have k: "\<not> ok (plain_response 500 ''Internal Server Error'')"
    by (simp add: ok_def plain_response_def)
  show ?thesis
    using verifyRedditUser_failure_is_false [of "mock_runtime (Rejected ?e) Pending" "[]" ?e ?tr1 "''testuser''"]
          verifyRedditUser_failure_is_false [of ?rt2 "[]" ?e ?tr1 "''testuser''" "JStr ''mock_access_token_12345''" "''mock_access_token_12345''"]
          verifyRedditUser_failure_is_false [of ?rt3 "[]" ?e ?tr1 "''testuser''" "JStr ''mock_access_token_12345''" "''mock_access_token_12345''" "plain_response 500 ''Internal Server Error''"]
    by (simp add: mock_token mock_token_rejected t n2 n3 k)
qed



section \<open>Waiting for the network\<close>

text \<open>
  Claim C6 says that the token exchange and the resource request each carry a bounded
  timeout, so that no call blocks for ever. Neither \<^verbatim>\<open>fetch\<close> is given a signal or a
  timeout: against an endpoint that never answers (the ``timeout'' scenario of
  \<^verbatim>\<open>tests/mocks/reddit.ts\<close>), the calls never settle.
\<close>

theorem no_timeout_counterexample:
  "fst (getRedditAccessToken (mock_runtime Pending Pending) []) = Pending
   \<and> fst (verifyRedditUser (mock_runtime (Resolved mock_token_response) Pending) ''timeout'' []) = Pending"
  by (simp add: verifyRedditUser_def verifyRedditUser_try_def mock_token)
     (simp add: getRedditAccessToken_def fetch_def mock_runtime_sel mock_network_def
                token_request_def about_request_def)

text \<open>
  Claim C6, as the code has it. Each call waits for its \<^verbatim>\<open>fetch\<close>: when the token
  request never settles, \<^verbatim>\<open>getRedditAccessToken\<close>, \<^verbatim>\<open>getTop\<close> and \<^verbatim>\<open>verifyRedditUser\<close>
  never settle; when the resource request never settles, neither do \<^verbatim>\<open>getTop\<close> and
  \<^verbatim>\<open>verifyRedditUser\<close>; a token request that fails surfaces from
  \<^verbatim>\<open>getRedditAccessToken\<close> as the error \<^verbatim>\<open>fetch\<close> rejected with; and in a runtime where
  every request and every reading of a body settles, all three calls settle.
\<close>

theorem calls_wait_for_fetch:
  "(REDDIT_CLIENT_ID rt = Some clientId \<and> REDDIT_CLIENT_SECRET rt = Some clientSecret
      \<and> clientId \<noteq> [] \<and> clientSecret \<noteq> []
      \<and> network rt (tr @ [Call ''getRedditAccessToken'']) (token_request clientId clientSecret) = Pending \<longrightarrow>
        fst (getRedditAccessToken rt tr) = Pending
      \<and> fst (getTop rt subreddit limit tr) = Pending
      \<and> fst (verifyRedditUser rt username tr) = Pending)
   \<and> (REDDIT_CLIENT_ID rt = Some clientId \<and> REDDIT_CLIENT_SECRET rt = Some clientSecret
      \<and> clientId \<noteq> [] \<and> clientSecret \<noteq> []
      \<and> network rt (tr @ [Call ''getRedditAccessToken'']) (token_request clientId clientSecret) = Rejected e \<longrightarrow>
        fst (getRedditAccessToken rt tr) = Rejected e)
   \<and> (getRedditAccessToken rt tr = (Resolved accessToken, tr1)
      \<and> to_template (engine_message rt) accessToken = Inr bearer
      \<and> network rt tr1 (about_request username bearer) = Pending \<longrightarrow>
        fst (verifyRedditUser rt username tr) = Pending)
   \<and> (getRedditAccessToken rt tr = (Resolved accessToken, tr1)
      \<and> to_template (engine_message rt) accessToken = Inr bearer
      \<and> network rt tr1 (top_request (default_subreddit subreddit) (default_limit limit) bearer) = Pending \<longrightarrow>
        fst (getTop rt subreddit limit tr) = Pending)
   \<and> (settles rt \<longrightarrow>
        fst (getRedditAccessToken rt tr) \<noteq> Pending
      \<and> fst (getTop rt subreddit limit tr) \<noteq> Pending
      \<and> fst (verifyRedditUser rt username tr) \<noteq> Pending)"
proof (intro conjI impI)
  assume a: "REDDIT_CLIENT_ID rt = Some clientId \<and> REDDIT_CLIENT_SECRET rt = Some clientSecret
      \<and> clientId \<noteq> [] \<and> clientSecret \<noteq> []
      \<and> network rt (tr @ [Call ''getRedditAccessToken'']) (token_request clientId clientSecret) = Pending"
  then show t: "fst (getRedditAccessToken rt tr) = Pending"
    by (simp add: getRedditAccessToken_def fetch_def)
  then show "fst (getTop rt subreddit limit tr) = Pending"
    by (cases "getRedditAccessToken rt tr") (simp add: getTop_Pending getTop_try_def)
  from t show "fst (verifyRedditUser rt username tr) = Pending"
    by (cases "getRedditAccessToken rt tr") (simp add: verifyRedditUser_Pending verifyRedditUser_try_def)
next
  assume "REDDIT_CLIENT_ID rt = Some clientId \<and> REDDIT_CLIENT_SECRET rt = Some clientSecret
      \<and> clientId \<noteq> [] \<and> clientSecret \<noteq> []
      \<and> network rt (tr @ [Call ''getRedditAccessToken'']) (token_request clientId clientSecret) = Rejected e"
  then show "fst (getRedditAccessToken rt tr) = Rejected e"
    by (simp add: getRedditAccessToken_def fetch_def)
next
  assume "getRedditAccessToken rt tr = (Resolved accessToken, tr1)
      \<and> to_template (engine_message rt) accessToken = Inr bearer
      \<and> network rt tr1 (about_request username bearer) = Pending"
  then show "fst (verifyRedditUser rt username tr) = Pending"
    by (simp add: verifyRedditUser_Pending verifyRedditUser_try_def fetch_def)
next
  assume "getRedditAccessToken rt tr = (Resolved accessToken, tr1)
      \<and> to_template (engine_message rt) accessToken = Inr bearer
      \<and> network rt tr1 (top_request (default_subreddit subreddit) (default_limit limit) bearer) = Pending"
  then show "fst (getTop rt subreddit limit tr) = Pending"
    by (simp add: getTop_Pending getTop_try_def fetch_def)
next
  assume s: "settles rt"
  then show "fst (getRedditAccessToken rt tr) \<noteq> Pending"
    by (rule getRedditAccessToken_settles)
  from s show "fst (getTop rt subreddit limit tr) \<noteq> Pending"
    by (simp add: getTop_Pending getTop_try_settles)
  from s show "fst (verifyRedditUser rt username tr) \<noteq> Pending"
    by (simp add: verifyRedditUser_Pending verifyRedditUser_try_settles)
qed

theorem calls_wait_for_fetch_witness:
  "fst (getRedditAccessToken (mock_runtime Pending Pending) []) = Pending
   \<and> fst (getTop (mock_runtime Pending Pending) None None []) = Pending
   \<and> fst (verifyRedditUser (mock_runtime Pending Pending) ''timeout'' []) = Pending
   \<and> fst (getRedditAccessToken (mock_runtime (Rejected (JsError ''TypeError'' ''fetch failed'')) Pending) []) =
       Rejected (JsError ''TypeError'' ''fetch failed'')
   \<and> fst (verifyRedditUser (mock_runtime (Resolved mock_token_response) Pending) ''timeout'' []) = Pending
   \<and> fst (getTop (mock_runtime (Resolved mock_token_response) Pending) None None []) = Pending
   \<and> fst (getTop (mock_runtime (Resolved mock_token_response) (Resolved (plain_response 500 ''down''))) None None []) \<noteq> Pending"
proof -
  let ?tr0 = "[Call ''getRedditAccessToken'']"
  let ?tr1 = "[Call ''getRedditAccessToken'', Fetch (token_request ''test_client_id'' ''test_client_secret'')]"
  let ?e = "JsError ''TypeError'' ''fetch failed''"
  let ?tok = "JStr ''mock_access_token_12345''"
  let ?rt3 = "mock_runtime (Resolved mock_token_response) Pending"
  let ?rt4 = "mock_runtime (Resolved mock_token_response) (Resolved (plain_response 500 ''down''))"
  have n1: "network (mock_runtime a b) ?tr0 (token_request ''test_client_id'' ''test_client_secret'') = a" for a b
    by (simp add: mock_runtime_sel mock_network_def token_request_def)
  have t: "to_template (engine_message (mock_runtime a b)) ?tok = Inr ''mock_access_token_12345''" for a b
    by simp
  have n3: "network ?rt3 ?tr1 (about_request ''timeout'' ''mock_access_token_12345'') = Pending"
    by (simp add: mock_runtime_sel mock_network_def about_request_def)
  have n4: "network ?rt3 ?tr1 (top_request (default_subreddit None) (default_limit None) ''mock_access_token_12345'') = Pending"
    by (simp add: mock_runtime_sel mock_network_def top_request_def)
  have h: "settles ?rt4"
    by (rule mock_settles) (simp_all add: mock_token_response_def plain_response_def)
  have i: "''test_client_id'' \<noteq> []" and j: "''test_client_secret'' \<noteq> []" by simp_all
  note w = calls_wait_for_fetch [where clientId = "''test_client_id''" and clientSecret = "''test_client_secret''"
      and tr = "[]" and subreddit = None and limit = None and username = "''timeout''" and e = ?e
      and accessToken = ?tok and ?tr1.0 = ?tr1 and bearer = "''mock_access_token_12345''"]
  show ?thesis
    using w [of "mock_runtime Pending Pending"] w [of "mock_runtime (Rejected ?e) Pending"]
          w [of ?rt3] w [of ?rt4]
    by (simp add: mock_runtime_sel(3,4) n1 t n3 n4 h mock_token)
qed

section \<open>Failures of the listing\<close>

text \<open>
  Claim C10. A failure inside \<^verbatim>\<open>getTop\<close> whose message does not contain ``rate limit''
  is thrown anew as an \<^verbatim>\<open>Error\<close> with the message ``Failed to fetch Reddit top posts: ''
  followed by the original message; a failure whose message contains ``rate limit''
  propagates as it is; and every error \<^verbatim>\<open>getTop\<close> rejects with arises in one of these
  two ways. In particular missing credentials and a transport failure are wrapped, and
  the error of the 429 answer is not.
\<close>

theorem getTop_wraps_failures:
  "(getTop_try rt (default_subreddit subreddit) (default_limit limit) tr = (Rejected e, tr') \<longrightarrow>
      getTop rt subreddit limit tr =
        (Rejected (if str_includes (message e) ''rate limit'' then e
                   else new_Error (''Failed to fetch Reddit top posts: '' @ message e)), tr'))
   \<and> (fst (getTop rt subreddit limit tr) = Rejected e' \<longrightarrow>
        (\<exists>e0. fst (getTop_try rt (default_subreddit subreddit) (default_limit limit) tr) = Rejected e0
           \<and> e' = (if str_includes (message e0) ''rate limit'' then e0
                    else new_Error (''Failed to fetch Reddit top posts: '' @ message e0))))
   \<and> (falsy (REDDIT_CLIENT_ID rt) \<or> falsy (REDDIT_CLIENT_SECRET rt) \<longrightarrow>
        fst (getTop rt subreddit limit tr) =
          Rejected (new_Error ''Failed to fetch Reddit top posts: Reddit API credentials not configured''))
   \<and> (getRedditAccessToken rt tr = (Resolved accessToken, tr1)
        \<and> to_template (engine_message rt) accessToken = Inr bearer
        \<and> network rt tr1 (top_request (default_subreddit subreddit) (default_limit limit) bearer) = Rejected e
        \<and> \<not> str_includes (message e) ''rate limit'' \<longrightarrow>
        fst (getTop rt subreddit limit tr) =
          Rejected (new_Error (''Failed to fetch Reddit top posts: '' @ message e)))
   \<and> (getRedditAccessToken rt tr = (Resolved accessToken, tr1)
        \<and> to_template (engine_message rt) accessToken = Inr bearer
        \<and> network rt tr1 (top_request (default_subreddit subreddit) (default_limit limit) bearer) = Resolved resp
        \<and> status resp = 429 \<longrightarrow>
        fst (getTop rt subreddit limit tr) = Rejected (new_Error ''Reddit API rate limit exceeded''))"
proof (intro conjI impI)
  assume "getTop_try rt (default_subreddit subreddit) (default_limit limit) tr = (Rejected e, tr')"
  then show "getTop rt subreddit limit tr =
        (Rejected (if str_includes (message e) ''rate limit'' then e
                   else new_Error (''Failed to fetch Reddit top posts: '' @ message e)), tr')"
    by (rule getTop_Rejected)
next
  assume "fst (getTop rt subreddit limit tr) = Rejected e'"
  then show "\<exists>e0. fst (getTop_try rt (default_subreddit subreddit) (default_limit limit) tr) = Rejected e0
           \<and> e' = (if str_includes (message e0) ''rate limit'' then e0
                    else new_Error (''Failed to fetch Reddit top posts: '' @ message e0))"
    by (cases "getTop_try rt (default_subreddit subreddit) (default_limit limit) tr")
       (auto simp: getTop_def split: settled.splits if_splits)
next
  assume "falsy (REDDIT_CLIENT_ID rt) \<or> falsy (REDDIT_CLIENT_SECRET rt)"
  then have "getRedditAccessToken rt tr =
      (Rejected (new_Error ''Reddit API credentials not configured''), tr @ [Call ''getRedditAccessToken''])"
    by (auto simp: getRedditAccessToken_def falsy_def Let_def split: option.splits)
  then have "getTop_try rt (default_subreddit subreddit) (default_limit limit) tr =
      (Rejected (new_Error ''Reddit API credentials not configured''), tr @ [Call ''getRedditAccessToken''])"
    by (simp add: getTop_try_def)
  from getTop_Rejected [OF this]
  show "fst (getTop rt subreddit limit tr) =
          Rejected (new_Error ''Failed to fetch Reddit top posts: Reddit API credentials not configured'')"
    by (simp add: new_Error_def)
next
  assume a: "getRedditAccessToken rt tr = (Resolved accessToken, tr1)
        \<and> to_template (engine_message rt) accessToken = Inr bearer
        \<and> network rt tr1 (top_request (default_subreddit subreddit) (default_limit limit) bearer) = Rejected e
        \<and> \<not> str_includes (message e) ''rate limit''"
  then have "getTop_try rt (default_subreddit subreddit) (default_limit limit) tr =
      (Rejected e, tr1 @ [Fetch (top_request (default_subreddit subreddit) (default_limit limit) bearer)])"
    by (simp add: getTop_try_def fetch_def)
  from getTop_Rejected [OF this] a
  show "fst (getTop rt subreddit limit tr) =
          Rejected (new_Error (''Failed to fetch Reddit top posts: '' @ message e))"
    by simp
next
  assume a: "getRedditAccessToken rt tr = (Resolved accessToken, tr1)
        \<and> to_template (engine_message rt) accessToken = Inr bearer
        \<and> network rt tr1 (top_request (default_subreddit subreddit) (default_limit limit) bearer) = Resolved resp
        \<and> status resp = 429"
  then have "getTop_try rt (default_subreddit subreddit) (default_limit limit) tr =
      (Rejected (new_Error ''Reddit API rate limit exceeded''),
       tr1 @ [Fetch (top_request (default_subreddit subreddit) (default_limit limit) bearer)])"
    by (simp add: getTop_try_def fetch_def)
  from getTop_Rejected [OF this]
  show "fst (getTop rt subreddit limit tr) = Rejected (new_Error ''Reddit API rate limit exceeded'')"
    by (simp add: new_Error_def)
qed

theorem getTop_wraps_failures_witness:
  "fst (getTop unconfigured_runtime None None []) =
     Rejected (new_Error ''Failed to fetch Reddit top posts: Reddit API credentials not configured'')
   \<and> fst (getTop (mock_runtime (Resolved mock_token_response) (Rejected (JsError ''TypeError'' ''fetch failed''))) None None []) =
     Rejected (new_Error ''Failed to fetch Reddit top posts: fetch failed'')
   \<and> fst (getTop (mock_runtime (Resolved mock_token_response) (Resolved (plain_response 429 ''Too Many Requests''))) None None []) =
     Rejected (new_Error ''Reddit API rate limit exceeded'')"
proof -
  let ?tr1 = "[Call ''getRedditAccessToken'', Fetch (token_request ''test_client_id'' ''test_client_secret'')]"
  let ?e = "JsError ''TypeError'' ''fetch failed''"
  let ?tok = "JStr ''mock_access_token_12345''"
  let ?r = "plain_response 429 ''Too Many Requests''"
  let ?rt2 = "mock_runtime (Resolved mock_token_response) (Rejected ?e)"
  let ?rt3 = "mock_runtime (Resolved mock_token_response) (Resolved ?r)"
  let ?req = "top_request (default_subreddit None) (default_limit None) ''mock_access_token_12345''"
  have u: "falsy (REDDIT_CLIENT_ID unconfigured_runtime) \<or> falsy (REDDIT_CLIENT_SECRET unconfigured_runtime)"
    by (simp add: unconfigured_runtime_def falsy_def)
  have t: "to_template (engine_message (mock_runtime a b)) ?tok = Inr ''mock_access_token_12345''" for a b
    by simp
  have n2: "network ?rt2 ?tr1 ?req = Rejected ?e"
    by (simp add: mock_runtime_sel mock_network_def top_request_def)
  have n3: "network ?rt3 ?tr1 ?req = Resolved ?r"
    by (simp add: mock_runtime_sel mock_network_def top_request_def)
  have m: "\<not> str_includes (message ?e) ''rate limit''" by simp
  have k: "status ?r = 429" by (simp add: plain_response_def)
  note w = getTop_wraps_failures [where tr = "[]" and subreddit = None and limit = None and e = ?e
      and accessToken = ?tok and ?tr1.0 = ?tr1 and bearer = "''mock_access_token_12345''" and resp = ?r]
  show ?thesis
    using w [where rt = unconfigured_runtime, THEN conjunct2, THEN conjunct2, THEN conjunct1]
          w [where rt = ?rt2, THEN conjunct2, THEN conjunct2, THEN conjunct2, THEN conjunct1]
          w [where rt = ?rt3, THEN conjunct2, THEN conjunct2, THEN conjunct2, THEN conjunct2]
    by (simp add: u t n2 n3 m k mock_token)
qed

section \<open>One token exchange per invocation\<close>

text \<open>
  Claim C9. Whatever happened before it, an invocation of \<^verbatim>\<open>getTop\<close> and an invocation of
  \<^verbatim>\<open>verifyRedditUser\<close> each enter \<^verbatim>\<open>getRedditAccessToken\<close> exactly once, and each posts to
  the token endpoint exactly once when the credentials are configured (and not at all when
  they are not). Nothing of an earlier invocation is reused: the count grows by one from
  any earlier trace.
\<close>

theorem one_token_exchange_per_invocation:
  "token_calls (snd (getTop rt subreddit limit tr)) = token_calls tr + 1
   \<and> token_calls (snd (verifyRedditUser rt username tr)) = token_calls tr + 1
   \<and> token_posts (snd (getTop rt subreddit limit tr)) = token_posts tr + (if configured rt then 1 else 0)
   \<and> token_posts (snd (verifyRedditUser rt username tr)) = token_posts tr + (if configured rt then 1 else 0)"
proof -
  obtain evs where g: "snd (getTop rt subreddit limit tr) = snd (getRedditAccessToken rt tr) @ evs"
      "token_calls evs = 0" "token_posts evs = 0"
    using getTop_try_trace [of rt "default_subreddit subreddit" "default_limit limit" tr]
    by (auto simp: getTop_trace)
  obtain evs1 evs2 where v:
      "snd (verifyRedditUser rt username tr) = (snd (getRedditAccessToken rt tr) @ evs1) @ evs2"
      "token_calls evs1 = 0" "token_posts evs1 = 0" "token_calls evs2 = 0" "token_posts evs2 = 0"
    using verifyRedditUser_try_trace [of rt username tr] verifyRedditUser_trace [of rt username tr]
    by auto
  show ?thesis
    by (simp only: g v token_calls_append token_posts_append
                   getRedditAccessToken_token_calls getRedditAccessToken_token_posts) simp
qed

theorem one_token_exchange_per_invocation_witness:
  "token_calls (snd (verifyRedditUser (mock_runtime (Resolved mock_token_response) Pending) ''testuser''
                       [Call ''getRedditAccessToken''])) = 2
   \<and> token_posts (snd (getTop unconfigured_runtime None None [])) = 0"
  using one_token_exchange_per_invocation
          [of "mock_runtime (Resolved mock_token_response) Pending" None None
              "[Call ''getRedditAccessToken'']" "''testuser''"]
        one_token_exchange_per_invocation [of unconfigured_runtime None None "[]" "''testuser''"]
  by (simp add: token_calls_def token_posts_def requests_of_def configured_def falsy_def
                unconfigured_runtime_def)

section \<open>One applicant per identity\<close>

lemma insert_applicant_unique:
  "unique_identities store \<Longrightarrow> insert_applicant store row = Inr store' \<Longrightarrow> unique_identities store'"
  by (auto simp: insert_applicant_def unique_identities_def split: if_splits)

lemma persist_unique:
  "unique_identities store \<Longrightarrow> persist q input store = (r, store') \<Longrightarrow> unique_identities store'"
  by (auto simp: persist_def Let_def split: if_splits sum.splits storage_error.splits
           dest: insert_applicant_unique)

lemma advance_unique:
  "unique_identities store \<Longrightarrow> advance q s p store = (p', store') \<Longrightarrow> unique_identities store'"
  by (cases p) (auto split: if_splits verdict.splits bool.splits prod.splits dest: persist_unique)

lemma step_unique:
  "unique_identities (fst c) \<Longrightarrow> unique_identities (fst (step q s1 s2 c m))"
  by (cases c; cases m)
     (auto split: prod.splits sum.splits storage_error.splits
           dest: advance_unique insert_applicant_unique)

lemma foldl_step_unique:
  "unique_identities (fst c) \<Longrightarrow> unique_identities (fst (foldl (step q s1 s2) c schedule))"
  by (induction schedule arbitrary: c) (simp_all add: step_unique)

lemma interleave_unique:
  "unique_identities store \<Longrightarrow> unique_identities (fst (interleave q s1 s2 schedule store))"
  by (simp add: interleave_def foldl_step_unique)

lemma submit_as_steps:
  "interleave q s s' [First, First, First] store =
     (snd (submit q s store), Finished (fst (submit q s store)), Submitted)"
  by (auto simp: interleave_def submit_def split: verdict.splits bool.splits prod.splits)

lemma select_applicant_None:
  "select_applicant store k = None \<longleftrightarrow> k \<notin> set (map identity_key store)"
  by (auto simp: select_applicant_def find_None_iff)

lemma key_new_applicant: "identity_key (new_applicant (form s)) = submitted_key s"
  by (simp add: identity_key_def new_applicant_def submitted_key_def)

lemma persist_qualified:
  assumes "qualifies q s"
  shows "persist q (form s) store =
           (if submitted_key s \<in> set (map identity_key store) then (Inl already_exists, store)
            else (Inr (matchFor (catalog q) (form s)), store @ [new_applicant (form s)]))"
  using assms
  by (auto simp: persist_def qualifies_def insert_applicant_def key_new_applicant Let_def)

lemma advance_qualified:
  assumes "qualifies q s"
  shows "advance q s p store =
     (case p of
        Submitted \<Rightarrow> if submitted_key s \<in> set (map identity_key store)
                      then (Finished (Inl already_exists), store) else (PreChecked, store)
      | PreChecked \<Rightarrow> (Verified, store)
      | Verified \<Rightarrow> if submitted_key s \<in> set (map identity_key store)
                     then (Finished (Inl already_exists), store)
                     else (Finished (Inr (matchFor (catalog q) (form s))), store @ [new_applicant (form s)])
      | Finished r \<Rightarrow> (Finished r, store))"
proof (cases p)
  case Submitted
  then show ?thesis using assms
    by (simp add: qualifies_def select_applicant_None)
next
  case PreChecked
  then show ?thesis using assms by (simp add: qualifies_def)
next
  case Verified
  then show ?thesis by (simp add: persist_qualified [OF assms])
next
  case (Finished r)
  then show ?thesis by simp
qed

lemma phase_simps:
  "finished Submitted = False" "finished PreChecked = False" "finished Verified = False"
  "finished (Finished r) = True"
  "succeeded Submitted = False" "succeeded PreChecked = False" "succeeded Verified = False"
  "succeeded (Finished (Inr m)) = True" "succeeded (Finished (Inl e)) = False"
  "won_or_duplicate Submitted = True" "won_or_duplicate PreChecked = True"
  "won_or_duplicate Verified = True" "won_or_duplicate (Finished (Inr m)) = True"
  "won_or_duplicate (Finished (Inl e)) = (e = already_exists)"
  by (simp_all add: finished_def succeeded_def won_or_duplicate_def)

lemma succeeded_finished: "succeeded p \<Longrightarrow> finished p"
  by (cases p) (simp_all add: phase_simps)

lemma race_invariant_sym: "race_invariant k (store, p1, p2) = race_invariant k (store, p2, p1)"
  by (auto simp: race_invariant_def)

lemma race_step_first:
  assumes q: "qualifies q s" and k: "submitted_key s = k"
      and inv: "race_invariant k (store, p, p')" and adv: "advance q s p store = (pn, store')"
  shows "race_invariant k (store', pn, p')"
proof (cases p)
  case Submitted
  with inv adv show ?thesis
    unfolding advance_qualified [OF q] k
    by (auto simp: race_invariant_def phase_simps split: if_splits)
next
  case PreChecked
  with inv adv show ?thesis
    unfolding advance_qualified [OF q] k
    by (auto simp: race_invariant_def phase_simps)
next
  case Verified
  show ?thesis
  proof (cases "k \<in> set (map identity_key store)")
    case True
    with inv adv Verified show ?thesis
      unfolding advance_qualified [OF q] k
      by (auto simp: race_invariant_def phase_simps)
  next
    case False
    with inv have "\<not> finished p'" and "\<not> succeeded p'"
      by (auto simp: race_invariant_def dest: succeeded_finished)
    with False inv adv Verified show ?thesis
      unfolding advance_qualified [OF q] k
      using key_new_applicant [of s]
      by (auto simp: race_invariant_def phase_simps unique_identities_def k)
  qed
next
  case (Finished r)
  with inv adv show ?thesis
    unfolding advance_qualified [OF q] k
    by (auto simp: race_invariant_def)
qed

lemma race_step_other:
  assumes inv: "race_invariant k (store, p1, p2)" and "identity_key row \<noteq> k"
  shows "race_invariant k (step q s1 s2 (store, p1, p2) (Other row))"
  using assms
  by (auto simp: race_invariant_def insert_applicant_def unique_identities_def
           split: storage_error.splits)

lemma race_step:
  assumes "qualifies q s1" and "qualifies q s2"
      and "submitted_key s1 = k" and "submitted_key s2 = k"
      and "race_invariant k c" and "k \<notin> set (other_keys [m])"
  shows "race_invariant k (step q s1 s2 c m)"
proof (cases c)
  case (fields store p1 p2)
  show ?thesis
  proof (cases m)
    case First
    obtain pn store' where a: "advance q s1 p1 store = (pn, store')" by (cases "advance q s1 p1 store")
    from race_step_first [OF assms(1,3) _ a] assms(5) fields First a show ?thesis by simp
  next
    case Second
    obtain pn store' where a: "advance q s2 p2 store = (pn, store')" by (cases "advance q s2 p2 store")
    from assms(5) fields have "race_invariant k (store, p2, p1)" by (simp add: race_invariant_sym)
    from race_step_first [OF assms(2,4) this a] fields Second a show ?thesis
      by (simp add: race_invariant_sym)
  next
    case (Other row)
    with assms(6) have "identity_key row \<noteq> k" by simp
    from race_step_other [OF _ this] assms(5) fields Other show ?thesis by simp
  qed
qed

lemma other_keys_Cons: "set (other_keys (m # ms)) = set (other_keys [m]) \<union> set (other_keys ms)"
  by (cases m) simp_all

lemma race_foldl:
  assumes "qualifies q s1" and "qualifies q s2"
      and "submitted_key s1 = k" and "submitted_key s2 = k"
  shows "race_invariant k c \<Longrightarrow> k \<notin> set (other_keys schedule) \<Longrightarrow>
         race_invariant k (foldl (step q s1 s2) c schedule)"
proof (induction schedule arbitrary: c)
  case Nil
  then show ?case by simp
next
  case (Cons m ms)
  from Cons.prems(2) have a: "k \<notin> set (other_keys [m])" and b: "k \<notin> set (other_keys ms)"
    using other_keys_Cons [of m ms] by auto
  from race_step [OF assms Cons.prems(1) a] Cons.IH [OF _ b] show ?case by simp
qed

lemma race_initial:
  "unique_identities store \<Longrightarrow> k \<notin> set (map identity_key store) \<Longrightarrow>
   race_invariant k (store, Submitted, Submitted)"
  by (simp add: race_invariant_def phase_simps)

lemma rows_of_absent: "k \<notin> set (map identity_key store) \<Longrightarrow> rows_of store k = 0"
  by (induction store) (auto simp: rows_of_def)

lemma unique_rows_of:
  "unique_identities store \<Longrightarrow> k \<in> set (map identity_key store) \<Longrightarrow> rows_of store k = 1"
proof (induction store)
  case Nil
  then show ?case by simp
next
  case (Cons row store)
  show ?case
  proof (cases "identity_key row = k")
    case True
    with Cons.prems(1) have "k \<notin> set (map identity_key store)"
      by (auto simp: unique_identities_def)
    from rows_of_absent [OF this] True show ?thesis by (simp add: rows_of_def)
  next
    case False
    with Cons show ?thesis by (auto simp: unique_identities_def rows_of_def)
  qed
qed

lemma race_outcome:
  assumes "qualifies q s1" and "qualifies q s2"
      and "submitted_key s1 = k" and "submitted_key s2 = k"
      and "unique_identities store" and "k \<notin> set (map identity_key store)"
      and "k \<notin> set (other_keys schedule)"
      and "interleave q s1 s2 schedule store = (store', Finished r1, Finished r2)"
  shows "rows_of store' k = 1
       \<and> ((\<exists>m. r1 = Inr m) \<and> r2 = Inl already_exists \<or> r1 = Inl already_exists \<and> (\<exists>m. r2 = Inr m))"
proof -
  have inv: "race_invariant k (store', Finished r1, Finished r2)"
    using race_foldl [OF assms(1-4) race_initial [OF assms(5,6)] assms(7)] assms(8)
    by (simp add: interleave_def)
  then have "unique_identities store'" and "k \<in> set (map identity_key store')"
    by (simp_all add: race_invariant_def phase_simps)
  then have "rows_of store' k = 1" by (rule unique_rows_of)
  moreover from inv
  have "(\<exists>m. r1 = Inr m) \<and> r2 = Inl already_exists \<or> r1 = Inl already_exists \<and> (\<exists>m. r2 = Inr m)"
    by (cases r1; cases r2) (auto simp: race_invariant_def phase_simps)
  ultimately show ?thesis by simp
qed


lemma progress_simps:
  "progress Submitted = 0" "progress PreChecked = 1" "progress Verified = 2"
  "progress (Finished r) = 3"
  by (simp_all add: progress_def)

lemma progress_Finished: "3 \<le> progress p \<Longrightarrow> \<exists>r. p = Finished r"
  by (cases p) (simp_all add: progress_simps)

lemma advance_progress:
  "min 3 (Suc (progress p)) \<le> progress (fst (advance q s p store))"
  by (cases p)
     (auto simp: progress_simps split: verdict.splits bool.splits prod.splits)

lemma step_progress:
  "min 3 (progress (fst (snd c)) + count_list [m] First) \<le> progress (fst (snd (step q s1 s2 c m)))
   \<and> min 3 (progress (snd (snd c)) + count_list [m] Second) \<le> progress (snd (snd (step q s1 s2 c m)))"
proof (cases c)
  case (fields store p1 p2)
  show ?thesis
  proof (cases m)
    case First
    with fields advance_progress [of p1 q s1 store] show ?thesis
      by (auto split: prod.splits)
  next
    case Second
    with fields advance_progress [of p2 q s2 store] show ?thesis
      by (auto split: prod.splits)
  next
    case (Other row)
    with fields show ?thesis
      by (auto split: sum.splits storage_error.splits)
  qed
qed

lemma foldl_step_progress:
  "min 3 (progress (fst (snd c)) + count_list schedule First)
     \<le> progress (fst (snd (foldl (step q s1 s2) c schedule)))
   \<and> min 3 (progress (snd (snd c)) + count_list schedule Second)
     \<le> progress (snd (snd (foldl (step q s1 s2) c schedule)))"
proof (induction schedule arbitrary: c)
  case Nil
  then show ?case by simp
next
  case (Cons m ms)
  from step_progress [of c m q s1 s2] Cons.IH [of "step q s1 s2 c m"]
  show ?case by (cases m) auto
qed

lemma interleave_finishes:
  assumes "3 \<le> count_list schedule First" and "3 \<le> count_list schedule Second"
  shows "\<exists>st o1 o2. interleave q s1 s2 schedule store = (st, Finished o1, Finished o2)"
proof -
  obtain st p1 p2 where i: "interleave q s1 s2 schedule store = (st, p1, p2)"
    by (cases "interleave q s1 s2 schedule store")
  from foldl_step_progress [of "(store, Submitted, Submitted)" schedule q s1 s2] assms i
  have "3 \<le> progress p1" and "3 \<le> progress p2"
    by (simp_all add: interleave_def progress_simps)
  then obtain o1 o2 where "p1 = Finished o1" and "p2 = Finished o2"
    using progress_Finished by blast
  with i show ?thesis by simp
qed

lemma race_finishes:
  assumes "qualifies q s1" and "qualifies q s2"
      and "submitted_key s1 = k" and "submitted_key s2 = k"
      and "unique_identities store" and "k \<notin> set (map identity_key store)"
      and "k \<notin> set (other_keys schedule)"
      and "3 \<le> count_list schedule First" and "3 \<le> count_list schedule Second"
  shows "\<exists>st o1 o2. interleave q s1 s2 schedule store = (st, Finished o1, Finished o2)
           \<and> rows_of st k = 1
           \<and> ((\<exists>m. o1 = Inr m) \<and> o2 = Inl already_exists \<or> o1 = Inl already_exists \<and> (\<exists>m. o2 = Inr m))"
proof -
  obtain st o1 o2 where i: "interleave q s1 s2 schedule store = (st, Finished o1, Finished o2)"
    using interleave_finishes [OF assms(8,9)] by blast
  from race_outcome [OF assms(1-7) i] i show ?thesis by blast
qed

lemma submit_unique:
  "unique_identities store \<Longrightarrow> unique_identities (snd (submit q s store))"
  by (cases "persist q (form s) store")
     (auto simp: submit_def split: verdict.splits bool.splits dest: persist_unique)

lemma submit_existing:
  "valid_input q (form s) \<Longrightarrow> submitted_key s \<in> set (map identity_key store) \<Longrightarrow>
   submit q s store = (Inl already_exists, store)"
  using select_applicant_None [of store "submitted_key s"] by (simp add: submit_def)

lemma submit_twice:
  assumes "unique_identities store" and "qualifies q s1" and "qualifies q s2"
      and "submitted_key s2 = submitted_key s1"
      and "submitted_key s1 \<notin> set (map identity_key store)"
  shows "\<exists>m st1. submit q s1 store = (Inr m, st1) \<and> submit q s2 st1 = (Inl already_exists, st1)
            \<and> rows_of st1 (submitted_key s1) = 1"
proof -
  let ?st1 = "store @ [new_applicant (form s1)]"
  have 1: "submit q s1 store = (Inr (matchFor (catalog q) (form s1)), ?st1)"
    using assms(2,5) select_applicant_None [of store "submitted_key s1"]
    by (simp add: submit_def persist_qualified qualifies_def)
  have k: "submitted_key s1 \<in> set (map identity_key ?st1)"
    by (simp add: key_new_applicant)
  have 2: "submit q s2 ?st1 = (Inl already_exists, ?st1)"
    using submit_existing [of q s2 ?st1] assms(3,4) k by (simp add: qualifies_def)
  have "unique_identities ?st1"
    using submit_unique [OF assms(1), of q s1] 1 by simp
  from unique_rows_of [OF this k] 1 2 show ?thesis by simp
qed

text \<open>
  Claim C7. In the store, no two applicant rows ever share an (email, phone) pair, whatever
  the submissions and however their steps interleave; a row with the email of an existing
  row and another phone is accepted. Of two qualifying submissions of one (email, phone)
  pair that the store did not hold, made one after the other, the first creates the row
  and the second returns the duplicate error ``already exists''; made concurrently, in any
  interleaving of their steps with each other and with inserts of other identities, one of
  them creates the row and the other returns the duplicate error. Either way the store
  ends with exactly one row for the pair. The concurrent submissions do finish: every
  schedule that gives each of them its three steps, in whatever order and with whatever
  else in between, ends with both finished, and then with one row, one success and one
  duplicate error. A submission of a pair that the store already holds returns the
  duplicate error and leaves the store as it was.
\<close>

theorem one_applicant_per_identity:
  "(unique_identities store \<longrightarrow>
      unique_identities (snd (submit q s1 store))
      \<and> unique_identities (fst (interleave q s1 s2 schedule store)))
   \<and> (unique_identities store \<and> qualifies q s1 \<and> qualifies q s2
        \<and> submitted_key s2 = submitted_key s1
        \<and> submitted_key s1 \<notin> set (map identity_key store) \<longrightarrow>
      (\<exists>m st1. submit q s1 store = (Inr m, st1) \<and> submit q s2 st1 = (Inl already_exists, st1)
          \<and> rows_of st1 (submitted_key s1) = 1))
   \<and> (unique_identities store \<and> qualifies q s1 \<and> qualifies q s2
        \<and> submitted_key s2 = submitted_key s1
        \<and> submitted_key s1 \<notin> set (map identity_key store)
        \<and> submitted_key s1 \<notin> set (other_keys schedule)
        \<and> interleave q s1 s2 schedule store = (store', Finished r1, Finished r2) \<longrightarrow>
      rows_of store' (submitted_key s1) = 1
      \<and> ((\<exists>m. r1 = Inr m) \<and> r2 = Inl already_exists \<or> r1 = Inl already_exists \<and> (\<exists>m. r2 = Inr m)))
   \<and> (valid_input q (form s1) \<and> submitted_key s1 \<in> set (map identity_key store) \<longrightarrow>
      submit q s1 store = (Inl already_exists, store))
   \<and> ((\<forall>r \<in> set store. applicant_email r = applicant_email row \<longrightarrow>
                          applicant_phone r \<noteq> applicant_phone row) \<longrightarrow>
      insert_applicant store row = Inr (store @ [row]))
   \<and> (3 \<le> count_list schedule First \<and> 3 \<le> count_list schedule Second \<longrightarrow>
      (\<exists>st o1 o2. interleave q s1 s2 schedule store = (st, Finished o1, Finished o2)))
   \<and> (unique_identities store \<and> qualifies q s1 \<and> qualifies q s2
        \<and> submitted_key s2 = submitted_key s1
        \<and> submitted_key s1 \<notin> set (map identity_key store)
        \<and> submitted_key s1 \<notin> set (other_keys schedule)
        \<and> 3 \<le> count_list schedule First \<and> 3 \<le> count_list schedule Second \<longrightarrow>
      (\<exists>st o1 o2. interleave q s1 s2 schedule store = (st, Finished o1, Finished o2)
          \<and> rows_of st (submitted_key s1) = 1
          \<and> ((\<exists>m. o1 = Inr m) \<and> o2 = Inl already_exists
               \<or> o1 = Inl already_exists \<and> (\<exists>m. o2 = Inr m))))"
proof -
  have c1: "unique_identities store \<longrightarrow>
      unique_identities (snd (submit q s1 store))
      \<and> unique_identities (fst (interleave q s1 s2 schedule store))"
    by (simp add: submit_unique interleave_unique)
  have c2: "unique_identities store \<and> qualifies q s1 \<and> qualifies q s2
        \<and> submitted_key s2 = submitted_key s1
        \<and> submitted_key s1 \<notin> set (map identity_key store) \<longrightarrow>
      (\<exists>m st1. submit q s1 store = (Inr m, st1) \<and> submit q s2 st1 = (Inl already_exists, st1)
          \<and> rows_of st1 (submitted_key s1) = 1)"
    using submit_twice [of store q s1 s2] by blast
  have c3: "unique_identities store \<and> qualifies q s1 \<and> qualifies q s2
        \<and> submitted_key s2 = submitted_key s1
        \<and> submitted_key s1 \<notin> set (map identity_key store)
        \<and> submitted_key s1 \<notin> set (other_keys schedule)
        \<and> interleave q s1 s2 schedule store = (store', Finished r1, Finished r2) \<longrightarrow>
      rows_of store' (submitted_key s1) = 1
      \<and> ((\<exists>m. r1 = Inr m) \<and> r2 = Inl already_exists \<or> r1 = Inl already_exists \<and> (\<exists>m. r2 = Inr m))"
    using race_outcome [of q s1 s2 "submitted_key s1" store schedule store' r1 r2] by blast
  have c4: "valid_input q (form s1) \<and> submitted_key s1 \<in> set (map identity_key store) \<longrightarrow>
      submit q s1 store = (Inl already_exists, store)"
    using submit_existing [of q s1 store] by blast
  have c5: "(\<forall>r \<in> set store. applicant_email r = applicant_email row \<longrightarrow>
                          applicant_phone r \<noteq> applicant_phone row) \<longrightarrow>
      insert_applicant store row = Inr (store @ [row])"
    by (auto simp: insert_applicant_def identity_key_def)
  have c6: "3 \<le> count_list schedule First \<and> 3 \<le> count_list schedule Second \<longrightarrow>
      (\<exists>st o1 o2. interleave q s1 s2 schedule store = (st, Finished o1, Finished o2))"
    using interleave_finishes [of schedule q s1 s2 store] by blast
  have c7: "unique_identities store \<and> qualifies q s1 \<and> qualifies q s2
        \<and> submitted_key s2 = submitted_key s1
        \<and> submitted_key s1 \<notin> set (map identity_key store)
        \<and> submitted_key s1 \<notin> set (other_keys schedule)
        \<and> 3 \<le> count_list schedule First \<and> 3 \<le> count_list schedule Second \<longrightarrow>
      (\<exists>st o1 o2. interleave q s1 s2 schedule store = (st, Finished o1, Finished o2)
          \<and> rows_of st (submitted_key s1) = 1
          \<and> ((\<exists>m. o1 = Inr m) \<and> o2 = Inl already_exists
               \<or> o1 = Inl already_exists \<and> (\<exists>m. o2 = Inr m)))"
    using race_finishes [of q s1 s2 "submitted_key s1" store schedule] by blast
  from c1 c2 c3 c4 c5 c6 c7 show ?thesis by (intro conjI)
qed

lemma example_race:
  "interleave example_qualifier (example_submission ''555-0100'') (example_submission ''555-0100'')
     example_schedule [] =
   ([new_applicant (form (example_submission ''555-0199'')),
     new_applicant (form (example_submission ''555-0100''))],
    Finished (Inl already_exists),
    Finished (Inr (Some \<lparr>slug = ''acme'', display_name = ''Acme Co'', hourly_rate = 20,
                         signing_bonus = 100, available = True\<rparr>)))"
  by (simp add: interleave_def example_schedule_def example_qualifier_def example_submission_def
        persist_def insert_applicant_def valid_input_def select_applicant_def submitted_key_def
        identity_key_def new_applicant_def matchFor_def Let_def)

theorem one_applicant_per_identity_witness:
  "3 \<le> count_list example_schedule First \<and> 3 \<le> count_list example_schedule Second
   \<and> interleave example_qualifier (example_submission ''555-0100'') (example_submission ''555-0100'')
        example_schedule [] =
      ([new_applicant (form (example_submission ''555-0199'')),
        new_applicant (form (example_submission ''555-0100''))],
       Finished (Inl already_exists),
       Finished (Inr (Some \<lparr>slug = ''acme'', display_name = ''Acme Co'', hourly_rate = 20,
                            signing_bonus = 100, available = True\<rparr>)))
   \<and> (\<exists>st o1 o2.
         interleave example_qualifier (example_submission ''555-0100'') (example_submission ''555-0100'')
           example_schedule [] = (st, Finished o1, Finished o2)
         \<and> rows_of st (''a@x.com'', ''555-0100'') = 1
         \<and> ((\<exists>m. o1 = Inr m) \<and> o2 = Inl already_exists
              \<or> o1 = Inl already_exists \<and> (\<exists>m. o2 = Inr m)))
   \<and> rows_of [new_applicant (form (example_submission ''555-0199'')),
               new_applicant (form (example_submission ''555-0100''))] (''a@x.com'', ''555-0100'') = 1
   \<and> submit example_qualifier (example_submission ''555-0100'')
         [new_applicant (form (example_submission ''555-0100''))] =
       (Inl already_exists, [new_applicant (form (example_submission ''555-0100''))])
   \<and> insert_applicant [new_applicant (form (example_submission ''555-0100''))]
         (new_applicant (form (example_submission ''555-0199''))) =
       Inr [new_applicant (form (example_submission ''555-0100'')),
            new_applicant (form (example_submission ''555-0199''))]
   \<and> (\<exists>m st1. submit example_qualifier (example_submission ''555-0100'') [] = (Inr m, st1)
         \<and> submit example_qualifier (example_submission ''555-0100'') st1 = (Inl already_exists, st1)
         \<and> rows_of st1 (''a@x.com'', ''555-0100'') = 1)"
proof -
  let ?s = "example_submission ''555-0100''"
  let ?row = "new_applicant (form ?s)"
  let ?row' = "new_applicant (form (example_submission ''555-0199''))"
  have k: "submitted_key ?s = (''a@x.com'', ''555-0100'')"
    by (simp add: submitted_key_def example_submission_def)
  have u: "unique_identities []" by (simp add: unique_identities_def)
  have g: "qualifies example_qualifier ?s"
    by (simp add: qualifies_def valid_input_def example_qualifier_def example_submission_def matchFor_def)
  have v: "valid_input example_qualifier (form ?s)"
    using g by (simp add: qualifies_def)
  have o: "submitted_key ?s \<notin> set (other_keys example_schedule)"
    unfolding k by (simp add: example_schedule_def identity_key_def new_applicant_def example_submission_def)
  have e: "submitted_key ?s \<in> set (map identity_key [?row])"
    unfolding k by (simp add: identity_key_def new_applicant_def example_submission_def)
  have d: "\<forall>r \<in> set [?row]. applicant_email r = applicant_email ?row' \<longrightarrow>
                            applicant_phone r \<noteq> applicant_phone ?row'"
    by (simp add: new_applicant_def example_submission_def)
  have n: "3 \<le> count_list example_schedule First \<and> 3 \<le> count_list example_schedule Second"
    by (simp add: example_schedule_def)
  note w = one_applicant_per_identity [where q = example_qualifier and ?s1.0 = ?s and ?s2.0 = ?s
      and schedule = example_schedule and row = ?row'
      and store' = "[?row', ?row]" and ?r1.0 = "Inl already_exists"
      and ?r2.0 = "Inr (Some \<lparr>slug = ''acme'', display_name = ''Acme Co'', hourly_rate = 20,
                                signing_bonus = 100, available = True\<rparr>)"]
  have total: "\<exists>st o1 o2. interleave example_qualifier ?s ?s example_schedule [] = (st, Finished o1, Finished o2)
         \<and> rows_of st (''a@x.com'', ''555-0100'') = 1
         \<and> ((\<exists>m. o1 = Inr m) \<and> o2 = Inl already_exists
              \<or> o1 = Inl already_exists \<and> (\<exists>m. o2 = Inr m))"
    using w [where store = "[]"] u g o n by (simp add: k)
  have rest: "rows_of [?row', ?row] (''a@x.com'', ''555-0100'') = 1
   \<and> submit example_qualifier ?s [?row] = (Inl already_exists, [?row])
   \<and> insert_applicant [?row] ?row' = Inr [?row, ?row']
   \<and> (\<exists>m st1. submit example_qualifier ?s [] = (Inr m, st1)
         \<and> submit example_qualifier ?s st1 = (Inl already_exists, st1)
         \<and> rows_of st1 (''a@x.com'', ''555-0100'') = 1)"
    using w [where store = "[]"] w [where store = "[?row]"] u g v o e d example_race
    by (simp add: k)
  from n example_race total rest show ?thesis by (intro conjI) simp_all
qed

end
